theory Spec2Isabelle
  imports Complex_Main
begin

section \<open>Values, errors and array access\<close>

text \<open>
  The embedding follows \<^verbatim>\<open>src/nanotrappy/utils/viz.py\<close>. Samples are real numbers:
  rounding and infinities of IEEE arithmetic are not modelled. NaN is modelled as an
  explicit value wherever the source produces it (\<^verbatim>\<open>np.nan\<close>) or tests for it
  (\<^verbatim>\<open>np.isnan\<close>). Every \<^verbatim>\<open>raise\<close> of the source, and every exception of a library
  call on the modelled paths, is an \<open>Inl\<close> result.
\<close>

datatype error =
    TypeError string
  | ValueError string
  | IndexError string
  | LinAlgError string

text \<open>A Python scalar as it occurs in the tuples of \<^verbatim>\<open>get_min_trap\<close> and in the
  result grids: \<^verbatim>\<open>np.nan\<close>, a non-negative integer (an index or the literal 0), or a
  float.\<close>

datatype pyval = PNaN | PInt nat | PFloat real

fun isnan :: "pyval \<Rightarrow> bool" where
  "isnan PNaN = True"
| "isnan _ = False"

text \<open>An array argument: its number of dimensions, and its samples when it is
  one-dimensional (the flattened contents otherwise; no modelled path reads them then).\<close>

record ndarray =
  ndim :: nat
  elems :: "real list"

definition array1 :: "real list \<Rightarrow> ndarray" where
  "array1 xs = \<lparr>ndim = 1, elems = xs\<rparr>"

definition neg :: "ndarray \<Rightarrow> ndarray" where
  "neg a = a\<lparr>elems := map uminus (elems a)\<rparr>"

text \<open>\<^verbatim>\<open>xs[i]\<close>: an index below zero counts back from the end, and an index
  outside \<open>[-n, n)\<close> raises IndexError.\<close>

definition getitem :: "'a list \<Rightarrow> int \<Rightarrow> error + 'a" where
  "getitem xs i =
     (if 0 \<le> i \<and> i < int (length xs) then Inr (xs ! nat i)
      else if i < 0 \<and> - int (length xs) \<le> i then Inr (xs ! nat (int (length xs) + i))
      else Inl (IndexError ''index out of bounds''))"

text \<open>\<^verbatim>\<open>xs[lo:hi]\<close> for non-negative bounds: never raises, clips at the end.\<close>

definition slice :: "'a list \<Rightarrow> nat \<Rightarrow> nat \<Rightarrow> 'a list" where
  "slice xs lo hi = take (hi - lo) (drop lo xs)"

text \<open>\<^verbatim>\<open>np.argmin\<close>: the first index of the least element; ValueError on an empty
  array.\<close>

fun argmin_from :: "real list \<Rightarrow> nat \<Rightarrow> real \<Rightarrow> nat \<Rightarrow> nat" where
  "argmin_from [] i best bi = bi"
| "argmin_from (v # vs) i best bi =
     (if v < best then argmin_from vs (Suc i) v i else argmin_from vs (Suc i) best bi)"

definition argmin :: "real list \<Rightarrow> error + nat" where
  "argmin vs =
     (case vs of
        [] \<Rightarrow> Inl (ValueError ''attempt to get argmin of an empty sequence'')
      | v # rest \<Rightarrow> Inr (argmin_from rest 1 v 0))"

section \<open>\<^verbatim>\<open>scipy.signal.find_peaks\<close>\<close>

text \<open>
  The source calls \<^verbatim>\<open>find_peaks\<close> with \<^verbatim>\<open>distance=10, prominence=5e-4\<close> (in
  \<^verbatim>\<open>get_min_trap\<close>) and with \<^verbatim>\<open>height=10\<close> (in
  \<^verbatim>\<open>get_coord_trap_outside_structure\<close>). The library routine is embedded step by
  step after SciPy's implementation: strict local maxima with plateaus reported at
  their midpoint, then the height filter, the distance filter, the prominences and
  the prominence filter, in this order.
\<close>

function plateau_end :: "real list \<Rightarrow> nat \<Rightarrow> nat \<Rightarrow> nat" where
  "plateau_end x i i_ahead =
     (if i_ahead < length x - 1 \<and> x ! i_ahead = x ! i
      then plateau_end x i (Suc i_ahead) else i_ahead)"
  by pat_completeness auto
termination
  by (relation "measure (\<lambda>(x, i, i_ahead). length x - i_ahead)") auto

declare plateau_end.simps [simp del]

lemma plateau_end_ge: "k \<le> plateau_end x i k"
proof (induction x i k rule: plateau_end.induct)
  case (1 x i i_ahead)
  show ?case
  proof (cases "i_ahead < length x - 1 \<and> x ! i_ahead = x ! i")
    case True
    then have "Suc i_ahead \<le> plateau_end x i (Suc i_ahead)" using 1 by simp
    with True show ?thesis by (subst plateau_end.simps) simp
  next
    case False
    then show ?thesis by (subst plateau_end.simps) auto
  qed
qed

lemma plateau_end_le: "k \<le> length x - 1 \<Longrightarrow> plateau_end x i k \<le> length x - 1"
proof (induction x i k rule: plateau_end.induct)
  case (1 x i i_ahead)
  show ?case
  proof (cases "i_ahead < length x - 1 \<and> x ! i_ahead = x ! i")
    case True
    then have "plateau_end x i (Suc i_ahead) \<le> length x - 1" using 1 by simp
    with True show ?thesis by (subst plateau_end.simps) simp
  next
    case False
    then show ?thesis using 1(2) by (subst plateau_end.simps) auto
  qed
qed

function local_maxima_from :: "real list \<Rightarrow> nat \<Rightarrow> nat list" where
  "local_maxima_from x i =
     (if i < length x - 1 then
        (if x ! (i - 1) < x ! i then
           (let i_ahead = plateau_end x i (Suc i) in
            if x ! i_ahead < x ! i
            then ((i + (i_ahead - 1)) div 2) # local_maxima_from x (Suc i_ahead)
            else local_maxima_from x (Suc i))
         else local_maxima_from x (Suc i))
      else [])"
  by pat_completeness auto
termination
proof (relation "measure (\<lambda>(x, i). length x - i)", goal_cases)
  case 1
  show ?case by simp
next
  case (2 x i i_ahead)
  have "Suc i \<le> plateau_end x i (Suc i)" by (rule plateau_end_ge)
  with 2 show ?case by simp
next
  case (3 x i i_ahead)
  then show ?case by simp
next
  case (4 x i)
  then show ?case by simp
qed

declare local_maxima_from.simps [simp del]

definition local_maxima_1d :: "real list \<Rightarrow> nat list" where
  "local_maxima_1d x = local_maxima_from x 1"

text \<open>Boolean-mask selection \<^verbatim>\<open>array[keep]\<close>.\<close>

definition select :: "bool list \<Rightarrow> 'a list \<Rightarrow> 'a list" where
  "select keep xs = map snd (filter fst (zip keep xs))"

text \<open>\<^verbatim>\<open>_select_by_peak_distance\<close>: peaks are visited from the highest priority
  down; a peak still kept removes every neighbour closer than the distance.
  \<^verbatim>\<open>np.argsort\<close> is embedded as a stable sort; NumPy leaves the order of equal
  priorities to the sorting routine.\<close>

definition argsort :: "real list \<Rightarrow> nat list" where
  "argsort pr = sort_key (\<lambda>i. pr ! i) [0..<length pr]"

fun suppress_left :: "nat list \<Rightarrow> nat \<Rightarrow> nat \<Rightarrow> nat \<Rightarrow> bool list \<Rightarrow> bool list" where
  "suppress_left peaks d j 0 keep = keep"
| "suppress_left peaks d j (Suc k) keep =
     (if int (peaks ! j) - int (peaks ! k) < int d
      then suppress_left peaks d j k (keep[k := False]) else keep)"

function suppress_right :: "nat list \<Rightarrow> nat \<Rightarrow> nat \<Rightarrow> nat \<Rightarrow> bool list \<Rightarrow> bool list" where
  "suppress_right peaks d j k keep =
     (if k < length peaks \<and> int (peaks ! k) - int (peaks ! j) < int d
      then suppress_right peaks d j (Suc k) (keep[k := False]) else keep)"
  by pat_completeness auto
termination
  by (relation "measure (\<lambda>(peaks, d, j, k, keep). length peaks - k)") auto

declare suppress_right.simps [simp del]

definition select_by_peak_distance :: "nat list \<Rightarrow> real list \<Rightarrow> nat \<Rightarrow> bool list" where
  "select_by_peak_distance peaks priority d =
     fold (\<lambda>j keep. if \<not> keep ! j then keep
                    else suppress_right peaks d j (Suc j) (suppress_left peaks d j j keep))
          (rev (argsort priority))
          (replicate (length peaks) True)"

text \<open>\<^verbatim>\<open>_peak_prominences\<close> without a window: walk left and right from the peak
  while the samples do not exceed it, remembering the lowest sample and where it
  was first met; the prominence is the peak's height above the higher of the two
  bases.\<close>

fun scan_left :: "real list \<Rightarrow> nat \<Rightarrow> nat \<Rightarrow> real \<times> nat \<Rightarrow> real \<times> nat" where
  "scan_left x peak 0 mb = mb"
| "scan_left x peak (Suc i) mb =
     (if x ! i \<le> x ! peak
      then scan_left x peak i (if x ! i < fst mb then (x ! i, i) else mb)
      else mb)"

function scan_right :: "real list \<Rightarrow> nat \<Rightarrow> nat \<Rightarrow> real \<times> nat \<Rightarrow> real \<times> nat" where
  "scan_right x peak i mb =
     (if i < length x \<and> x ! i \<le> x ! peak
      then scan_right x peak (Suc i) (if x ! i < fst mb then (x ! i, i) else mb)
      else mb)"
  by pat_completeness auto
termination
  by (relation "measure (\<lambda>(x, peak, i, mb). length x - i)") auto

declare scan_right.simps [simp del]

definition peak_prominence :: "real list \<Rightarrow> nat \<Rightarrow> real \<times> nat \<times> nat" where
  "peak_prominence x peak =
     (let l = scan_left x peak (Suc peak) (x ! peak, peak);
          r = scan_right x peak peak (x ! peak, peak)
      in (x ! peak - max (fst l) (fst r), snd l, snd r))"

record peak_properties =
  peak_heights :: "real list"
  prominences :: "real list"
  left_bases :: "nat list"
  right_bases :: "nat list"

definition no_properties :: peak_properties where
  "no_properties = \<lparr>peak_heights = [], prominences = [], left_bases = [], right_bases = []\<rparr>"

definition select_properties :: "bool list \<Rightarrow> peak_properties \<Rightarrow> peak_properties" where
  "select_properties keep pr =
     \<lparr>peak_heights = select keep (peak_heights pr),
      prominences = select keep (prominences pr),
      left_bases = select keep (left_bases pr),
      right_bases = select keep (right_bases pr)\<rparr>"

definition by_height :: "real list \<Rightarrow> real option \<Rightarrow> nat list \<times> peak_properties \<Rightarrow> nat list \<times> peak_properties" where
  "by_height x height pp =
     (case height of
        None \<Rightarrow> pp
      | Some hmin \<Rightarrow>
          (let hs = map (\<lambda>p. x ! p) (fst pp);
               keep = map (\<lambda>h. hmin \<le> h) hs
           in (select keep (fst pp),
               select_properties keep ((snd pp)\<lparr>peak_heights := hs\<rparr>))))"

definition by_distance :: "real list \<Rightarrow> nat option \<Rightarrow> nat list \<times> peak_properties \<Rightarrow> nat list \<times> peak_properties" where
  "by_distance x distance pp =
     (case distance of
        None \<Rightarrow> pp
      | Some d \<Rightarrow>
          (let keep = select_by_peak_distance (fst pp) (map (\<lambda>p. x ! p) (fst pp)) d
           in (select keep (fst pp), select_properties keep (snd pp))))"

definition by_prominence :: "real list \<Rightarrow> real option \<Rightarrow> nat list \<times> peak_properties \<Rightarrow> nat list \<times> peak_properties" where
  "by_prominence x prominence pp =
     (case prominence of
        None \<Rightarrow> pp
      | Some pmin \<Rightarrow>
          (let ps = map (peak_prominence x) (fst pp);
               props = (snd pp)\<lparr>prominences := map fst ps,
                                left_bases := map (fst \<circ> snd) ps,
                                right_bases := map (snd \<circ> snd) ps\<rparr>;
               keep = map (\<lambda>p. pmin \<le> p) (prominences props)
           in (select keep (fst pp), select_properties keep props)))"

definition find_peaks ::
  "ndarray \<Rightarrow> real option \<Rightarrow> nat option \<Rightarrow> real option \<Rightarrow> error + (nat list \<times> peak_properties)" where
  "find_peaks a height distance prominence =
     (if ndim a \<noteq> 1 then Inl (ValueError ''`x` must be a 1-D array'')
      else if (case distance of None \<Rightarrow> False | Some d \<Rightarrow> d < 1)
      then Inl (ValueError ''`distance` must be greater or equal to 1'')
      else Inr (by_prominence (elems a) prominence
                 (by_distance (elems a) distance
                   (by_height (elems a) height
                     (local_maxima_1d (elems a), no_properties)))))"

section \<open>\<^verbatim>\<open>Viz.get_min_trap\<close>\<close>

definition none_found :: "pyval list" where
  "none_found = [PNaN, PNaN, PInt 0, PInt 0, PNaN]"

definition found :: "real list \<Rightarrow> ndarray \<Rightarrow> nat list \<times> peak_properties \<Rightarrow> nat \<Rightarrow> nat \<Rightarrow> error + pyval list" where
  "found y_outside trap_outside local_minima k b =
     (case getitem y_outside (int (fst local_minima ! k)) of
        Inl e \<Rightarrow> Inl e
      | Inr pos \<Rightarrow>
          Inr [PInt (fst local_minima ! k),
               PFloat pos,
               PFloat (elems trap_outside ! (fst local_minima ! k)),
               PFloat (- (prominences (snd local_minima) ! k)),
               PInt (left_bases (snd local_minima) ! b)])"

definition get_min_trap :: "real list \<Rightarrow> ndarray \<Rightarrow> error + pyval list" where
  "get_min_trap y_outside trap_outside =
     (if 3 \<le> ndim trap_outside
      then Inl (TypeError ''This method can only be used if a 1D computation of the potential has been done.'')
      else
        (case find_peaks (neg trap_outside) None (Some 10) (Some (5 / 10000)) of
           Inl e \<Rightarrow> Inl e
         | Inr local_minima \<Rightarrow>
             if length (fst local_minima) = 0 then Inr none_found
             else if length (fst local_minima) = 1 \<and> 5 < fst local_minima ! 0
             then found y_outside trap_outside local_minima 0 0
             else if length (fst local_minima) = 1 \<and> fst local_minima ! 0 \<le> 5
             then Inr none_found
             else
               (case argmin (map (\<lambda>p. elems trap_outside ! p) (fst local_minima)) of
                  Inl e \<Rightarrow> Inl e
                | Inr arg \<Rightarrow> found y_outside trap_outside local_minima arg 0)))"

section \<open>Numerical library routines\<close>

text \<open>\<^verbatim>\<open>np.poly1d(fit)(x)\<close>: coefficients from the highest degree down.\<close>

definition polyval :: "real list \<Rightarrow> real \<Rightarrow> real" where
  "polyval fit v = foldl (\<lambda>acc c. acc * v + c) 0 fit"

text \<open>\<^verbatim>\<open>np.gradient(f, x)\<close> with sample coordinates: one-sided differences at both
  ends, the second-order three-point formula inside. The coordinates must match
  the samples in number; with fewer than two samples there is no coordinate
  difference, and reading the first one raises \<^verbatim>\<open>IndexError\<close>.\<close>

definition gradient_at :: "real list \<Rightarrow> real list \<Rightarrow> nat \<Rightarrow> real" where
  "gradient_at f x i =
     (let n = length f in
      if i = 0 then (f ! 1 - f ! 0) / (x ! 1 - x ! 0)
      else if i = n - 1 then (f ! (n - 1) - f ! (n - 2)) / (x ! (n - 1) - x ! (n - 2))
      else
        (let dx1 = x ! i - x ! (i - 1); dx2 = x ! (i + 1) - x ! i;
             a = - dx2 / (dx1 * (dx1 + dx2));
             b = (dx2 - dx1) / (dx1 * dx2);
             c = dx1 / (dx2 * (dx1 + dx2))
         in a * f ! (i - 1) + b * f ! i + c * f ! (i + 1)))"

definition gradient :: "real list \<Rightarrow> real list \<Rightarrow> error + real list" where
  "gradient f x =
     (if length x \<noteq> length f
      then Inl (ValueError ''when 1d, distances must match the length of the corresponding dimension'')
      else if length f < 2
      then Inl (IndexError ''index 0 is out of bounds for axis 0 with size 0'')
      else Inr (map (gradient_at f x) [0..<length f]))"

text \<open>\<^verbatim>\<open>np.sqrt\<close> of a negative number is NaN (with a warning, not an exception).\<close>

definition np_sqrt :: "real \<Rightarrow> pyval" where
  "np_sqrt v = (if v < 0 then PNaN else PFloat (sqrt v))"

fun ptimes :: "pyval \<Rightarrow> real \<Rightarrow> pyval" where
  "ptimes PNaN c = PNaN"
| "ptimes (PInt n) c = PFloat (real n * c)"
| "ptimes (PFloat v) c = PFloat (v * c)"

fun pabs :: "pyval \<Rightarrow> pyval" where
  "pabs PNaN = PNaN"
| "pabs (PInt n) = PInt n"
| "pabs (PFloat v) = PFloat \<bar>v\<bar>"

text \<open>\<^verbatim>\<open>v > c\<close>: false when \<^verbatim>\<open>v\<close> is NaN.\<close>

fun exceeds :: "pyval \<Rightarrow> real \<Rightarrow> bool" where
  "exceeds PNaN c = False"
| "exceeds (PInt n) c = (c < real n)"
| "exceeds (PFloat v) c = (c < v)"

text \<open>Storing a scalar into a float array.\<close>

fun to_float :: "pyval \<Rightarrow> pyval" where
  "to_float PNaN = PNaN"
| "to_float (PInt n) = PFloat (real n)"
| "to_float (PFloat v) = PFloat v"

text \<open>\<^verbatim>\<open>np.arange(start, stop, step)\<close> on floats: \<open>ceil((stop - start) / step)\<close>
  values \<open>start + k * step\<close>; a zero step is rejected.\<close>

definition arange :: "real \<Rightarrow> real \<Rightarrow> real \<Rightarrow> error + real list" where
  "arange start stop step =
     (if step = 0 then Inl (ValueError ''Maximum allowed size exceeded'')
      else Inr (map (\<lambda>k. start + real k * step) [0..<nat \<lceil>(stop - start) / step\<rceil>]))"

section \<open>The simulation object and the helpers of \<^verbatim>\<open>nanotrappy.utils\<close>\<close>

text \<open>
  What \<^verbatim>\<open>Viz\<close> reads from \<^verbatim>\<open>self.simul\<close> and from the unit module. The potential
  provider has a state of its own (\<^typ>\<open>'s\<close>): \<^verbatim>\<open>set_powers\<close> changes it and
  \<^verbatim>\<open>total_potential\<close> reads it; \<open>total_potential\<close> stands for the real part of
  column 0 of the array the provider returns. \<open>lstsq\<close> is the least-squares solve
  inside \<^verbatim>\<open>np.polyfit\<close>, which may raise \<^verbatim>\<open>LinAlgError\<close>. \<open>mass\<close>, \<open>kB\<close>, \<open>mK\<close>
  and \<open>kHz\<close> are the physical constants; they are non-zero, and a division by
  zero is not modelled.
\<close>

record 's simul =
  simul_axis :: "real list"
  set_powers :: "real list \<Rightarrow> 's \<Rightarrow> 's"
  total_potential :: "'s \<Rightarrow> real list"
  lstsq :: "real list \<Rightarrow> real list \<Rightarrow> nat \<Rightarrow> error + real list"
  mass :: real
  kB :: real
  mK :: real
  kHz :: real

text \<open>\<^verbatim>\<open>np.polyfit(x, y, deg)\<close>: the argument checks of NumPy, then the solve.\<close>

definition polyfit :: "('s, 'z) simul_scheme \<Rightarrow> real list \<Rightarrow> real list \<Rightarrow> nat \<Rightarrow> error + real list" where
  "polyfit sim x y deg =
     (if x = [] then Inl (TypeError ''expected non-empty vector for x'')
      else if length x \<noteq> length y then Inl (TypeError ''expected x and y to have same length'')
      else lstsq sim x y deg)"

text \<open>Modelled from the spec: \<^verbatim>\<open>find_nearest\<close> of \<^verbatim>\<open>nanotrappy.utils.utils\<close> is not
  among the sources. It is the index of the sample nearest to the value (the spec's
  ``nearest axis sample''), the first one on a tie, as \<^verbatim>\<open>np.argmin\<close> of the
  distances.\<close>

definition find_nearest :: "real list \<Rightarrow> real \<Rightarrow> error + nat" where
  "find_nearest array v = argmin (map (\<lambda>a. \<bar>a - v\<bar>) array)"

text \<open>Modelled from the spec: \<^verbatim>\<open>nan_to_zeros\<close> of \<^verbatim>\<open>nanotrappy.utils.utils\<close> is not
  among the sources. The spec: ``replace any NaN across all four grids with 0''.\<close>

definition nan_to_zeros :: "pyval list list \<Rightarrow> pyval list list" where
  "nan_to_zeros g = map (map (\<lambda>v. if isnan v then PFloat 0 else v)) g"

section \<open>\<^verbatim>\<open>Viz.get_trapfreq\<close>\<close>

text \<open>Tuple unpacking into four, and into five, targets.\<close>

definition unpack4 :: "'a list \<Rightarrow> error + ('a \<times> 'a \<times> 'a \<times> 'a)" where
  "unpack4 t =
     (case t of
        [a, b, c, d] \<Rightarrow> Inr (a, b, c, d)
      | _ \<Rightarrow> if 4 < length t then Inl (ValueError ''too many values to unpack (expected 4)'')
             else Inl (ValueError ''not enough values to unpack (expected 4)''))"

definition unpack5 :: "'a list \<Rightarrow> error + ('a \<times> 'a \<times> 'a \<times> 'a \<times> 'a)" where
  "unpack5 t =
     (case t of
        [a, b, c, d, e] \<Rightarrow> Inr (a, b, c, d, e)
      | _ \<Rightarrow> if 5 < length t then Inl (ValueError ''too many values to unpack (expected 5)'')
             else Inl (ValueError ''not enough values to unpack (expected 5)''))"

text \<open>The first part of \<^verbatim>\<open>get_trapfreq\<close>: locate the minimum, on the curve or on
  its threefold tiling. \<open>None\<close> stands for the early \<^verbatim>\<open>return 0\<close>.\<close>

definition locate_trap_pos :: "real list \<Rightarrow> ndarray \<Rightarrow> error + pyval option" where
  "locate_trap_pos y_outside trap_outside =
     (case get_min_trap y_outside trap_outside of
        Inl e \<Rightarrow> Inl e
      | Inr t \<Rightarrow>
          (case unpack4 t of
             Inl e \<Rightarrow> Inl e
           | Inr (trap_pos_index, trap_pos, _, _) \<Rightarrow>
               if isnan trap_pos then
                 (let trap_outside3 = trap_outside\<lparr>elems :=
                        elems trap_outside @ elems trap_outside @ elems trap_outside\<rparr>
                  in case getitem y_outside (- 1) of
                       Inl e \<Rightarrow> Inl e
                     | Inr y_last \<Rightarrow>
                         (case getitem y_outside 0 of
                            Inl e \<Rightarrow> Inl e
                          | Inr y_first \<Rightarrow>
                              (let y_outside3 = map (\<lambda>y. y - (y_last - y_first)) y_outside
                                                @ y_outside
                                                @ map (\<lambda>y. y + (y_last - y_first)) y_outside
                               in case get_min_trap y_outside3 trap_outside3 of
                                    Inl e \<Rightarrow> Inl e
                                  | Inr t3 \<Rightarrow>
                                      (case unpack4 t3 of
                                         Inl e \<Rightarrow> Inl e
                                       | Inr (trap_pos_index3, trap_pos3, _, _) \<Rightarrow>
                                           if isnan trap_pos3 then Inr None
                                           else Inr (Some trap_pos3)))))
               else Inr (Some trap_pos)))"

text \<open>The fit of degree 40, and of degree 20 when the first one raises
  \<^verbatim>\<open>LinAlgError\<close>; any other exception propagates.\<close>

definition fit_40_20 :: "('s, 'z) simul_scheme \<Rightarrow> real list \<Rightarrow> real list \<Rightarrow> error + real list" where
  "fit_40_20 sim y_outside trap =
     (case polyfit sim (drop 5 y_outside) (drop 5 trap) 40 of
        Inl (LinAlgError m) \<Rightarrow> polyfit sim (drop 5 y_outside) (drop 5 trap) 20
      | other \<Rightarrow> other)"

text \<open>\<^verbatim>\<open>np.argmin(np.abs(y - v))\<close>: every distance to NaN is NaN, and the argmin of
  an all-NaN array is 0.\<close>

definition argmin_abs_diff :: "real list \<Rightarrow> pyval \<Rightarrow> error + nat" where
  "argmin_abs_diff y v =
     (case v of
        PNaN \<Rightarrow> argmin (map (\<lambda>a. 0) y)
      | PInt n \<Rightarrow> argmin (map (\<lambda>a. \<bar>a - real n\<bar>) y)
      | PFloat r \<Rightarrow> argmin (map (\<lambda>a. \<bar>a - r\<bar>) y))"

definition get_trapfreq :: "('s, 'z) simul_scheme \<Rightarrow> real list \<Rightarrow> ndarray \<Rightarrow> error + pyval" where
  "get_trapfreq sim y_outside trap_outside =
     (if 3 \<le> ndim trap_outside
      then Inl (TypeError ''The trap given must be one-dimensional'')
      else
        (case locate_trap_pos y_outside trap_outside of
           Inl e \<Rightarrow> Inl e
         | Inr None \<Rightarrow> Inr (PInt 0)
         | Inr (Some trap_pos) \<Rightarrow>
             (case fit_40_20 sim y_outside (elems trap_outside) of
                Inl e \<Rightarrow> Inl e
              | Inr fit \<Rightarrow>
                  (case gradient (map (polyval fit) y_outside) y_outside of
                     Inl e \<Rightarrow> Inl e
                   | Inr der_fit \<Rightarrow>
                       (case gradient der_fit y_outside of
                          Inl e \<Rightarrow> Inl e
                        | Inr der2_fit \<Rightarrow>
                            (case argmin_abs_diff y_outside trap_pos of
                               Inl e \<Rightarrow> Inl e
                             | Inr index_min \<Rightarrow>
                                 Inr (ptimes (np_sqrt ((der2_fit ! index_min * kB sim * mK sim) / mass sim))
                                        (1 / (2 * pi)))))))))"

section \<open>\<^verbatim>\<open>Viz.get_coord_trap_outside_structure\<close>\<close>

text \<open>
  The arguments and the attributes the method reads. \<open>mf_index\<close> is the column
  index computed from the checked \<^verbatim>\<open>mf\<close>; \<open>coord\<close> is the axis returned by
  \<^verbatim>\<open>set_axis_from_axis\<close>; \<open>trap\<close> is the real part of column \<open>mf_index\<close> of
  \<^verbatim>\<open>compute_potential_1D\<close>; \<open>CP\<close> is column \<open>mf_index\<close> of \<^verbatim>\<open>self.simul.CP\<close>.
\<close>

record boundary_input =
  axis :: string
  trapping_axis :: string
  surface_type :: string
  mf_index :: nat
  coord :: "real list"
  trap :: "real list"
  CP :: "real list"

definition no_surface_msg :: string where
  "no_surface_msg = ''No surface for CP interactions have been specified. To restrict the search for the minimum in the right zone, you have to specify an edge''"

definition too_many_msg :: string where
  "too_many_msg = ''Too many structures set''"

definition get_coord_trap_outside_structure ::
  "boundary_input \<Rightarrow> real option \<Rightarrow> error + (nat \<times> real \<times> real list \<times> real list)" where
  "get_coord_trap_outside_structure inp edge_no_surface =
     (if axis inp \<noteq> trapping_axis inp
      then Inr (mf_index inp, 0, coord inp, trap inp)
      else if axis inp = trapping_axis inp \<and> surface_type inp = ''NoSurface''
      then
        (case edge_no_surface of
           None \<Rightarrow> Inl (ValueError no_surface_msg)
         | Some edge \<Rightarrow>
             (case argmin (map (\<lambda>c. \<bar>c - edge\<bar>) (coord inp)) of
                Inl e \<Rightarrow> Inl e
              | Inr index_edge \<Rightarrow>
                  Inr (mf_index inp, edge,
                       map (\<lambda>c. c - edge) (drop index_edge (coord inp)),
                       drop index_edge (trap inp))))
      else
        (case find_peaks (neg (array1 (CP inp))) (Some 10) None None of
           Inl e \<Rightarrow> Inl e
         | Inr peaks \<Rightarrow>
             if length (fst peaks) = 0
             then Inr (mf_index inp, 0, coord inp, trap inp)
             else if length (fst peaks) = 1
             then
               (let index_edge = fst peaks ! 0
                in case getitem (coord inp) (int index_edge - 1) of
                     Inl e \<Rightarrow> Inl e
                   | Inr edge \<Rightarrow>
                       Inr (mf_index inp, edge,
                            map (\<lambda>c. c - edge) (drop index_edge (coord inp)),
                            drop index_edge (trap inp)))
             else if length (fst peaks) = 2
             then
               (let index_edge = fst peaks
                in case getitem (coord inp) (int (index_edge ! 0) - 1) of
                     Inl e \<Rightarrow> Inl e
                   | Inr edge \<Rightarrow>
                       Inr (mf_index inp, edge,
                            map (\<lambda>c. c - edge) (slice (coord inp) (index_edge ! 0) (index_edge ! 1)),
                            slice (trap inp) (index_edge ! 0) (index_edge ! 1)))
             else Inl (ValueError too_many_msg)))"

section \<open>\<^verbatim>\<open>Viz.optimize\<close> and \<^verbatim>\<open>Viz.optimize_gui\<close>\<close>

record grids =
  res_pos :: "pyval list list"
  res_depth :: "pyval list list"
  res_height :: "pyval list list"
  res_freq :: "pyval list list"

text \<open>\<^verbatim>\<open>np.zeros((n, m))\<close> and the assignment \<^verbatim>\<open>res[i, j] = v\<close>.\<close>

definition zeros :: "nat \<Rightarrow> nat \<Rightarrow> pyval list list" where
  "zeros n m = replicate n (replicate m (PFloat 0))"

definition setitem2 :: "pyval list list \<Rightarrow> nat \<Rightarrow> nat \<Rightarrow> pyval \<Rightarrow> pyval list list" where
  "setitem2 g i j v = g[i := (g ! i)[j := to_float v]]"


fun over :: "pyval \<Rightarrow> real \<Rightarrow> pyval" where
  "over PNaN c = PNaN"
| "over (PInt n) c = PFloat (real n / c)"
| "over (PFloat v) c = PFloat (v / c)"

text \<open>A scalar used as an index: a float (NaN included) is refused.\<close>

fun index_of :: "pyval \<Rightarrow> error + int" where
  "index_of (PInt n) = Inr (int n)"
| "index_of _ = Inl (IndexError ''only integers, slices (`:`), ellipsis (`...`), numpy.newaxis (`None`) and integer or boolean arrays are valid indices'')"

fun real_of :: "pyval \<Rightarrow> real option" where
  "real_of PNaN = None"
| "real_of (PInt n) = Some (real n)"
| "real_of (PFloat v) = Some v"

text \<open>A loop whose body may raise: the first exception ends it.\<close>

fun foldE :: "('a \<Rightarrow> 'b \<Rightarrow> error + 'b) \<Rightarrow> 'a list \<Rightarrow> 'b \<Rightarrow> error + 'b" where
  "foldE f [] st = Inr st"
| "foldE f (x # xs) st = (case f x st of Inl e \<Rightarrow> Inl e | Inr st' \<Rightarrow> foldE f xs st')"

text \<open>
  The body of the inner loop of \<^verbatim>\<open>optimize\<close>, for the cell \<open>(i, j)\<close> with powers
  \<open>(P1, P2)\<close>; the state is the provider's state and the four grids. When the
  position is NaN both ends of the fit window are index 0 (the nearest sample to a
  NaN), the window is empty, and \<^verbatim>\<open>np.polyfit\<close> raises TypeError.
\<close>

definition optimize_cell ::
  "'s simul \<Rightarrow> nat \<Rightarrow> real list \<Rightarrow> nat \<Rightarrow> real \<Rightarrow> nat \<Rightarrow> real \<Rightarrow> 's \<times> grids \<Rightarrow> error + ('s \<times> grids)" where
  "optimize_cell sim yidx yout i P1 j P2 st =
     (let s' = set_powers sim [P1, P2] (fst st);
          pot = drop yidx (total_potential sim s')
      in case get_min_trap yout (array1 pot) of
           Inl e \<Rightarrow> Inl e
         | Inr t \<Rightarrow>
             (case unpack5 t of
                Inl e \<Rightarrow> Inl e
              | Inr (min_idx, min_pos, depth, height, height_idx) \<Rightarrow>
                  (case (if isnan height_idx then Inr (PInt 0)
                         else
                           (case index_of height_idx of
                              Inl e \<Rightarrow> Inl e
                            | Inr hi \<Rightarrow>
                                (case getitem yout hi of
                                   Inl e \<Rightarrow> Inl e
                                 | Inr height_pos \<Rightarrow>
                                     (case real_of min_pos of
                                        None \<Rightarrow> Inl (TypeError ''expected non-empty vector for x'')
                                      | Some mp \<Rightarrow>
                                          (let yleft = mp - (mp - height_pos) / 2;
                                               yright = mp + (mp - height_pos) / 2
                                           in case find_nearest yout yleft of
                                                Inl e \<Rightarrow> Inl e
                                              | Inr idx_left \<Rightarrow>
                                                  (case find_nearest yout yright of
                                                     Inl e \<Rightarrow> Inl e
                                                   | Inr idx_right \<Rightarrow>
                                                       (case polyfit sim (slice yout idx_left idx_right)
                                                                     (slice pot idx_left idx_right) 2 of
                                                          Inl e \<Rightarrow> Inl e
                                                        | Inr fit \<Rightarrow>
                                                            (case gradient (map (polyval fit) yout) yout of
                                                               Inl e \<Rightarrow> Inl e
                                                             | Inr der_fit \<Rightarrow>
                                                                 (case gradient der_fit yout of
                                                                    Inl e \<Rightarrow> Inl e
                                                                  | Inr der2_fit \<Rightarrow>
                                                                      (case argmin_abs_diff yout min_pos of
                                                                         Inl e \<Rightarrow> Inl e
                                                                       | Inr index_min \<Rightarrow>
                                                                           Inr (over
                                                                                 (ptimes (np_sqrt ((der2_fit ! index_min * kB sim * mK sim) / mass sim))
                                                                                        (1 / (2 * pi)))
                                                                                 (kHz sim))))))))))))
                   of
                     Inl e \<Rightarrow> Inl e
                   | Inr trap_freq \<Rightarrow>
                       (let depth1 = (if exceeds (pabs depth) 10 then PInt 0 else depth);
                            height1 = (if exceeds (pabs height) 10 then PInt 0 else height);
                            depth2 = pabs depth1;
                            height2 = pabs height1;
                            g = snd st
                        in Inr (s', g\<lparr>res_pos := setitem2 (res_pos g) i j min_pos,
                                        res_depth := setitem2 (res_depth g) i j depth2,
                                        res_height := setitem2 (res_height g) i j height2,
                                        res_freq := setitem2 (res_freq g) i j trap_freq\<rparr>)))))"

text \<open>Modelled from the spec: \<^verbatim>\<open>progressbar_enumerate\<close> of \<^verbatim>\<open>nanotrappy.utils.utils\<close>
  is not among the sources. It enumerates its argument as \<^verbatim>\<open>enumerate\<close> does and
  prints a progress bar, which ``must not block or alter computation''.\<close>

definition progressbar_enumerate :: "'a list \<Rightarrow> (nat \<times> 'a) list" where
  "progressbar_enumerate xs = enumerate 0 xs"

definition optimize ::
  "'s simul \<Rightarrow> 's \<Rightarrow> real \<Rightarrow> real \<Rightarrow> real \<Rightarrow> real \<Rightarrow> real \<Rightarrow> real \<Rightarrow> real \<Rightarrow> error + grids" where
  "optimize sim s0 ymin Pmin1 Pmax1 Pstep1 Pmin2 Pmax2 Pstep2 =
     (case arange Pmin1 Pmax1 Pstep1 of
        Inl e \<Rightarrow> Inl e
      | Inr r1 \<Rightarrow>
          (case arange Pmin2 Pmax2 Pstep2 of
             Inl e \<Rightarrow> Inl e
           | Inr Prange2 \<Rightarrow>
               (let Prange1 = rev r1;
                    g0 = \<lparr>res_pos = zeros (length Prange1) (length Prange2),
                          res_depth = zeros (length Prange1) (length Prange2),
                          res_height = zeros (length Prange1) (length Prange2),
                          res_freq = zeros (length Prange1) (length Prange2)\<rparr>
                in case find_nearest (simul_axis sim) ymin of
                     Inl e \<Rightarrow> Inl e
                   | Inr yidx \<Rightarrow>
                       (let yout = drop yidx (simul_axis sim)
                        in case foldE (\<lambda>(i, P1) st.
                                         foldE (\<lambda>(j, P2) st'. optimize_cell sim yidx yout i P1 j P2 st')
                                               (enumerate 0 Prange2) st)
                                      (progressbar_enumerate Prange1) (s0, g0) of
                             Inl e \<Rightarrow> Inl e
                           | Inr (s, g) \<Rightarrow>
                               Inr \<lparr>res_pos = map (map (\<lambda>v. ptimes v 1000000000)) (nan_to_zeros (res_pos g)),
                                    res_depth = nan_to_zeros (res_depth g),
                                    res_height = nan_to_zeros (res_height g),
                                    res_freq = nan_to_zeros (res_freq g)\<rparr>))))"

text \<open>
  \<^verbatim>\<open>optimize_gui\<close> repeats the loops with plain \<^verbatim>\<open>enumerate\<close>, emits \<^verbatim>\<open>_signal\<close>
  after each outer iteration, \<^verbatim>\<open>benchmark\<close> after the one with index 10 (its
  payload, an elapsed wall-clock time, is not modelled) and \<^verbatim>\<open>finished\<close> at the
  end, and stores the result in \<^verbatim>\<open>self.optim_res\<close>.
\<close>

datatype signal = Progress | Benchmark | Finished

record gui_result =
  returned :: grids
  optim_res :: grids
  emitted :: "signal list"

definition optimize_gui_cell ::
  "'s simul \<Rightarrow> nat \<Rightarrow> real list \<Rightarrow> nat \<Rightarrow> real \<Rightarrow> nat \<Rightarrow> real \<Rightarrow> 's \<times> grids \<Rightarrow> error + ('s \<times> grids)" where
  "optimize_gui_cell sim yidx yout i P1 j P2 st =
     (let s' = set_powers sim [P1, P2] (fst st);
          pot = drop yidx (total_potential sim s')
      in case get_min_trap yout (array1 pot) of
           Inl e \<Rightarrow> Inl e
         | Inr t \<Rightarrow>
             (case unpack5 t of
                Inl e \<Rightarrow> Inl e
              | Inr (min_idx, min_pos, depth, height, height_idx) \<Rightarrow>
                  (case (if isnan height_idx then Inr (PInt 0)
                         else
                           (case index_of height_idx of
                              Inl e \<Rightarrow> Inl e
                            | Inr hi \<Rightarrow>
                                (case getitem yout hi of
                                   Inl e \<Rightarrow> Inl e
                                 | Inr height_pos \<Rightarrow>
                                     (case real_of min_pos of
                                        None \<Rightarrow> Inl (TypeError ''expected non-empty vector for x'')
                                      | Some mp \<Rightarrow>
                                          (let yleft = mp - (mp - height_pos) / 2;
                                               yright = mp + (mp - height_pos) / 2
                                           in case find_nearest yout yleft of
                                                Inl e \<Rightarrow> Inl e
                                              | Inr idx_left \<Rightarrow>
                                                  (case find_nearest yout yright of
                                                     Inl e \<Rightarrow> Inl e
                                                   | Inr idx_right \<Rightarrow>
                                                       (case polyfit sim (slice yout idx_left idx_right)
                                                                     (slice pot idx_left idx_right) 2 of
                                                          Inl e \<Rightarrow> Inl e
                                                        | Inr fit \<Rightarrow>
                                                            (case gradient (map (polyval fit) yout) yout of
                                                               Inl e \<Rightarrow> Inl e
                                                             | Inr der_fit \<Rightarrow>
                                                                 (case gradient der_fit yout of
                                                                    Inl e \<Rightarrow> Inl e
                                                                  | Inr der2_fit \<Rightarrow>
                                                                      (case argmin_abs_diff yout min_pos of
                                                                         Inl e \<Rightarrow> Inl e
                                                                       | Inr index_min \<Rightarrow>
                                                                           Inr (over
                                                                                 (ptimes (np_sqrt ((der2_fit ! index_min * kB sim * mK sim) / mass sim))
                                                                                        (1 / (2 * pi)))
                                                                                 (kHz sim))))))))))))
                   of
                     Inl e \<Rightarrow> Inl e
                   | Inr trap_freq \<Rightarrow>
                       (let depth1 = (if exceeds (pabs depth) 10 then PInt 0 else depth);
                            height1 = (if exceeds (pabs height) 10 then PInt 0 else height);
                            depth2 = pabs depth1;
                            height2 = pabs height1;
                            g = snd st
                        in Inr (s', g\<lparr>res_pos := setitem2 (res_pos g) i j min_pos,
                                        res_depth := setitem2 (res_depth g) i j depth2,
                                        res_height := setitem2 (res_height g) i j height2,
                                        res_freq := setitem2 (res_freq g) i j trap_freq\<rparr>)))))"

definition optimize_gui ::
  "'s simul \<Rightarrow> 's \<Rightarrow> real \<Rightarrow> real \<Rightarrow> real \<Rightarrow> real \<Rightarrow> real \<Rightarrow> real \<Rightarrow> real \<Rightarrow> error + gui_result" where
  "optimize_gui sim s0 ymin Pmin1 Pmax1 Pstep1 Pmin2 Pmax2 Pstep2 =
     (case arange Pmin1 Pmax1 Pstep1 of
        Inl e \<Rightarrow> Inl e
      | Inr r1 \<Rightarrow>
          (case arange Pmin2 Pmax2 Pstep2 of
             Inl e \<Rightarrow> Inl e
           | Inr Prange2 \<Rightarrow>
               (let Prange1 = rev r1;
                    g0 = \<lparr>res_pos = zeros (length Prange1) (length Prange2),
                          res_depth = zeros (length Prange1) (length Prange2),
                          res_height = zeros (length Prange1) (length Prange2),
                          res_freq = zeros (length Prange1) (length Prange2)\<rparr>
                in case find_nearest (simul_axis sim) ymin of
                     Inl e \<Rightarrow> Inl e
                   | Inr yidx \<Rightarrow>
                       (let yout = drop yidx (simul_axis sim)
                        in case foldE (\<lambda>(i, P1) (st, sigs).
                                         case foldE (\<lambda>(j, P2) st'. optimize_gui_cell sim yidx yout i P1 j P2 st')
                                                    (enumerate 0 Prange2) st of
                                           Inl e \<Rightarrow> Inl e
                                         | Inr st1 \<Rightarrow>
                                             Inr (st1, sigs @ [Progress] @ (if i = 10 then [Benchmark] else [])))
                                      (enumerate 0 Prange1) ((s0, g0), []) of
                             Inl e \<Rightarrow> Inl e
                           | Inr ((s, g), sigs) \<Rightarrow>
                               (let res = \<lparr>res_pos = map (map (\<lambda>v. ptimes v 1000000000)) (nan_to_zeros (res_pos g)),
                                           res_depth = nan_to_zeros (res_depth g),
                                           res_height = nan_to_zeros (res_height g),
                                           res_freq = nan_to_zeros (res_freq g)\<rparr>
                                in Inr \<lparr>returned = res, optim_res = res, emitted = sigs @ [Finished]\<rparr>)))))"

section \<open>Predicates and example inputs of the statements\<close>

text \<open>What \<^verbatim>\<open>_local_maxima_1d\<close> reports: an index inside the array on a plateau that
  starts after a strictly lower sample.\<close>

definition is_local_max :: "real list \<Rightarrow> nat \<Rightarrow> bool" where
  "is_local_max x p \<longleftrightarrow>
     1 \<le> p \<and> p < length x - 1 \<and>
     (\<exists>l. 1 \<le> l \<and> l \<le> p \<and> x ! (l - 1) < x ! p \<and> (\<forall>k. l \<le> k \<and> k \<le> p \<longrightarrow> x ! k = x ! p))"

text \<open>The two raising cases of \<^verbatim>\<open>get_coord_trap_outside_structure\<close>.\<close>

definition missing_edge :: "boundary_input \<Rightarrow> real option \<Rightarrow> bool" where
  "missing_edge inp edge_no_surface \<longleftrightarrow>
     axis inp = trapping_axis inp \<and> surface_type inp = ''NoSurface'' \<and> edge_no_surface = None"

definition too_many_peaks :: "boundary_input \<Rightarrow> nat list \<Rightarrow> bool" where
  "too_many_peaks inp peaks \<longleftrightarrow>
     axis inp = trapping_axis inp \<and> surface_type inp \<noteq> ''NoSurface'' \<and> 2 < length peaks"

text \<open>The grids before the loops and the pass after them in \<^verbatim>\<open>optimize\<close>; the cells in
  the order the loops visit them; a grid cell assigned in all four grids; absence of
  NaN; the common shape.\<close>

definition zero_grids :: "nat \<Rightarrow> nat \<Rightarrow> grids" where
  "zero_grids n m = \<lparr>res_pos = zeros n m, res_depth = zeros n m, res_height = zeros n m,
                       res_freq = zeros n m\<rparr>"

definition sanitize :: "grids \<Rightarrow> grids" where
  "sanitize g = \<lparr>res_pos = map (map (\<lambda>v. ptimes v 1000000000)) (nan_to_zeros (res_pos g)),
                  res_depth = nan_to_zeros (res_depth g),
                  res_height = nan_to_zeros (res_height g),
                  res_freq = nan_to_zeros (res_freq g)\<rparr>"





subsection \<open>Example inputs\<close>

text \<open>A curve with two minima, at indices 8 and 20, the second one lower; a curve with
  one minimum at index 6; a flat curve.\<close>

definition two_minima :: "real list" where
  "two_minima = [-5, 7/2, 3, 5/2, 2, 3/2, 1, 1/2, 0, 1, 2, 3, 4, 5, 6, 5, 4, 3, 2, 1, -1, 1, 2, 3, 4,
                 5, 6, 7, 8, 9]"

definition two_minima_axis :: "real list" where
  "two_minima_axis = map real [0..<30]"

definition one_minimum :: "real list" where
  "one_minimum = [6, 5, 4, 3, 2, 1, 0, 1, 2]"

definition one_minimum_axis :: "real list" where
  "one_minimum_axis = map real [0..<9]"

definition flat_curve :: "real list" where
  "flat_curve = [0, 0, 0]"

definition flat_axis :: "real list" where
  "flat_axis = [0, 1, 2]"

text \<open>Proximity curves with three and with two singular spikes.\<close>

definition three_walls :: boundary_input where
  "three_walls = \<lparr>axis = ''y'', trapping_axis = ''y'', surface_type = ''Cylinder'', mf_index = 0,
                  coord = [0, 1, 2, 3, 4, 5, 6], trap = [10, 11, 12, 13, 14, 15, 16],
                  CP = [0, - 20, 0, - 20, 0, - 20, 0]\<rparr>"

definition two_walls :: boundary_input where
  "two_walls = \<lparr>axis = ''y'', trapping_axis = ''y'', surface_type = ''Cylinder'', mf_index = 0,
                coord = [0, 1, 2, 3, 4, 5], trap = [10, 11, 12, 13, 14, 15],
                CP = [0, - 20, 0, 0, - 20, 0]\<rparr>"

text \<open>A provider that keeps the last powers as its state and scales the two-minima
  curve by their sum; its fit always returns the parabola \<open>y\<^sup>2\<close>. A second provider whose
  fit always raises.\<close>

definition demo_sim :: "real list simul" where
  "demo_sim =
     \<lparr>simul_axis = map real [0..<30],
      set_powers = (\<lambda>powers s. powers),
      total_potential = (\<lambda>s. map (\<lambda>v. (s ! 0 + s ! 1) * v) two_minima),
      lstsq = (\<lambda>x y deg. Inr [1, 0, 0]),
      mass = 1, kB = 1, mK = 1, kHz = 1\<rparr>"



section \<open>Facts about the peak finder\<close>

lemma select_subset: "set (select keep xs) \<subseteq> set xs"
  unfolding select_def by (auto dest: set_zip_rightD)

lemma select_map: "select keep (map f xs) = map f (select keep xs)"
proof (induction keep arbitrary: xs)
  case Nil
  then show ?case by (simp add: select_def)
next
  case (Cons b keep)
  then show ?case by (cases xs) (auto simp: select_def)
qed

lemma plateau_end_const:
  "k0 \<le> k \<Longrightarrow> k < plateau_end x i k0 \<Longrightarrow> x ! k = x ! i"
proof (induction x i k0 rule: plateau_end.induct)
  case (1 x i i_ahead)
  show ?case
  proof (cases "i_ahead < length x - 1 \<and> x ! i_ahead = x ! i")
    case True
    then have pe: "plateau_end x i i_ahead = plateau_end x i (Suc i_ahead)"
      by (subst plateau_end.simps) simp
    show ?thesis
    proof (cases "k = i_ahead")
      case True
      with \<open>i_ahead < length x - 1 \<and> x ! i_ahead = x ! i\<close> show ?thesis by simp
    next
      case False
      with 1 True pe show ?thesis by simp
    qed
  next
    case False
    then have "plateau_end x i i_ahead = i_ahead" by (subst plateau_end.simps) auto
    with 1(2,3) show ?thesis by simp
  qed
qed

lemma local_maxima_from_props:
  "p \<in> set (local_maxima_from x i) \<Longrightarrow> 1 \<le> i \<Longrightarrow> is_local_max x p"
proof (induction x i rule: local_maxima_from.induct)
  case (1 x i)
  show ?case
  proof (cases "i < length x - 1")
    case False
    with 1(4) show ?thesis by (subst (asm) local_maxima_from.simps) simp
  next
    case inb: True
    show ?thesis
    proof (cases "x ! (i - 1) < x ! i")
      case False
      with inb 1(4) have "p \<in> set (local_maxima_from x (Suc i))"
        by (subst (asm) local_maxima_from.simps) simp
      with 1(3)[OF inb False] show ?thesis by simp
    next
      case rise: True
      define ia where "ia = plateau_end x i (Suc i)"
      have ia_ge: "Suc i \<le> ia" unfolding ia_def by (rule plateau_end_ge)
      have ia_le: "ia \<le> length x - 1" unfolding ia_def using inb by (intro plateau_end_le) simp
      show ?thesis
      proof (cases "x ! ia < x ! i")
        case False
        with inb rise 1(4) have "p \<in> set (local_maxima_from x (Suc i))"
          by (subst (asm) local_maxima_from.simps) (simp add: ia_def Let_def)
        with 1(2)[OF inb rise refl] False 1(5) show ?thesis
          by (simp add: ia_def)
      next
        case fall: True
        with inb rise 1(4) have mem: "p = (i + (ia - 1)) div 2 \<or> p \<in> set (local_maxima_from x (Suc ia))"
          by (subst (asm) local_maxima_from.simps) (auto simp add: ia_def Let_def)
        show ?thesis
        proof (cases "p = (i + (ia - 1)) div 2")
          case True
          have pl: "i \<le> p" "p \<le> ia - 1" using True ia_ge by auto
          have const: "\<And>k. i \<le> k \<Longrightarrow> k < ia \<Longrightarrow> x ! k = x ! i"
          proof -
            fix k assume "i \<le> k" "k < ia"
            show "x ! k = x ! i"
            proof (cases "k = i")
              case True then show ?thesis by simp
            next
              case False
              with \<open>i \<le> k\<close> have "Suc i \<le> k" by simp
              then show ?thesis using \<open>k < ia\<close> unfolding ia_def by (rule plateau_end_const)
            qed
          qed
          have xp: "x ! p = x ! i" using const[of p] pl ia_ge by simp
          have allk: "\<forall>k. i \<le> k \<and> k \<le> p \<longrightarrow> x ! k = x ! p"
          proof (intro allI impI)
            fix k assume k: "i \<le> k \<and> k \<le> p"
            then have "k < ia" using pl ia_ge by linarith
            with k have "x ! k = x ! i" by (intro const) simp_all
            then show "x ! k = x ! p" by (simp only: xp)
          qed
          have "x ! (i - 1) < x ! p" using rise by (simp only: xp)
          with allk 1(5) pl
          have "1 \<le> i \<and> i \<le> p \<and> x ! (i - 1) < x ! p \<and> (\<forall>k. i \<le> k \<and> k \<le> p \<longrightarrow> x ! k = x ! p)"
            by blast
          moreover have "1 \<le> p" "p < length x - 1" using pl 1(5) ia_le ia_ge by auto
          ultimately show ?thesis unfolding is_local_max_def by blast
        next
          case False
          with mem have "p \<in> set (local_maxima_from x (Suc ia))" by simp
          with 1(1)[OF inb rise refl] fall show ?thesis by (simp add: ia_def)
        qed
      qed
    qed
  qed
qed

lemma by_height_peaks: "set (fst (by_height x h pp)) \<subseteq> set (fst pp)"
proof (cases h)
  case None
  then show ?thesis by (simp add: by_height_def)
next
  case (Some hmin)
  then have "fst (by_height x h pp) = select (map (\<lambda>v. hmin \<le> v) (map (\<lambda>p. x ! p) (fst pp))) (fst pp)"
    by (simp add: by_height_def Let_def)
  then show ?thesis by (simp only: select_subset)
qed

lemma by_distance_peaks: "set (fst (by_distance x d pp)) \<subseteq> set (fst pp)"
proof (cases d)
  case None
  then show ?thesis by (simp add: by_distance_def)
next
  case (Some dd)
  then have "fst (by_distance x d pp)
      = select (select_by_peak_distance (fst pp) (map (\<lambda>p. x ! p) (fst pp)) dd) (fst pp)"
    by (simp add: by_distance_def Let_def)
  then show ?thesis by (simp only: select_subset)
qed

lemma select_map_pred: "select (map P xs) (map f xs) = map f (filter P xs)"
  by (induction xs) (auto simp: select_def)

lemma select_pred: "select (map P xs) xs = filter P xs"
  using select_map_pred[where f = "\<lambda>x. x"] by simp

lemma filter_map_pred: "filter P (map f xs) = map f (filter (\<lambda>x. P (f x)) xs)"
  by (induction xs) auto

lemma by_prominence_Some:
  "by_prominence x (Some pmin) pp =
     (filter (\<lambda>p. pmin \<le> fst (peak_prominence x p)) (fst pp),
      \<lparr>peak_heights = select (map (\<lambda>p. pmin \<le> fst (peak_prominence x p)) (fst pp)) (peak_heights (snd pp)),
       prominences = map (\<lambda>p. fst (peak_prominence x p)) (filter (\<lambda>p. pmin \<le> fst (peak_prominence x p)) (fst pp)),
       left_bases = map (\<lambda>p. fst (snd (peak_prominence x p))) (filter (\<lambda>p. pmin \<le> fst (peak_prominence x p)) (fst pp)),
       right_bases = map (\<lambda>p. snd (snd (peak_prominence x p))) (filter (\<lambda>p. pmin \<le> fst (peak_prominence x p)) (fst pp))\<rparr>)"
  by (simp add: by_prominence_def Let_def select_properties_def comp_def select_map_pred select_pred filter_map_pred)

lemma find_minima:
  assumes "ndim t = 1"
  shows "find_peaks (neg t) None (Some 10) (Some pmin) =
           Inr (by_prominence (map uminus (elems t)) (Some pmin)
                 (by_distance (map uminus (elems t)) (Some 10)
                   (local_maxima_1d (map uminus (elems t)), no_properties)))"
  using assms by (simp add: find_peaks_def neg_def by_height_def)

lemma by_prominence_fst:
  "fst (by_prominence x (Some pmin) pp) = filter (\<lambda>p. pmin \<le> fst (peak_prominence x p)) (fst pp)"
  by (simp only: by_prominence_Some fst_conv)

lemma by_prominence_prominences:
  "prominences (snd (by_prominence x (Some pmin) pp))
     = map (\<lambda>p. fst (peak_prominence x p)) (fst (by_prominence x (Some pmin) pp))"
  by (simp only: by_prominence_Some fst_conv snd_conv peak_properties.select_convs)

lemma by_prominence_left_bases:
  "left_bases (snd (by_prominence x (Some pmin) pp))
     = map (\<lambda>p. fst (snd (peak_prominence x p))) (fst (by_prominence x (Some pmin) pp))"
  by (simp only: by_prominence_Some fst_conv snd_conv peak_properties.select_convs)

lemma minima_props:
  assumes "ndim t = 1"
    and "find_peaks (neg t) None (Some 10) (Some pmin) = Inr (peaks, props)"
  shows "\<forall>p \<in> set peaks. is_local_max (map uminus (elems t)) p \<and> pmin \<le> fst (peak_prominence (map uminus (elems t)) p)"
    and "prominences props = map (\<lambda>p. fst (peak_prominence (map uminus (elems t)) p)) peaks"
    and "left_bases props = map (\<lambda>p. fst (snd (peak_prominence (map uminus (elems t)) p))) peaks"
proof -
  let ?x = "map uminus (elems t)"
  let ?pd = "by_distance ?x (Some 10) (local_maxima_1d ?x, no_properties)"
  have "Inr (by_prominence ?x (Some pmin) ?pd) = (Inr (peaks, props) :: error + _)"
    using assms(2) by (simp only: find_minima[OF assms(1)])
  then have eq: "by_prominence ?x (Some pmin) ?pd = (peaks, props)"
    by (simp only: sum.inject)
  have f: "fst (by_prominence ?x (Some pmin) ?pd) = peaks" by (simp only: eq fst_conv)
  have s: "snd (by_prominence ?x (Some pmin) ?pd) = props" by (simp only: eq snd_conv)
  have pk: "peaks = filter (\<lambda>p. pmin \<le> fst (peak_prominence ?x p)) (fst ?pd)"
    using by_prominence_fst[of ?x pmin ?pd] by (simp only: f)
  have sub: "set (fst ?pd) \<subseteq> set (local_maxima_1d ?x)"
    using by_distance_peaks[of ?x "Some 10" "(local_maxima_1d ?x, no_properties)"]
    by (simp only: fst_conv)
  show "\<forall>p \<in> set peaks. is_local_max ?x p \<and> pmin \<le> fst (peak_prominence ?x p)"
  proof
    fix p assume "p \<in> set peaks"
    then have "p \<in> set (filter (\<lambda>p. pmin \<le> fst (peak_prominence ?x p)) (fst ?pd))"
      using pk by simp
    then have "p \<in> set (fst ?pd)" and pm: "pmin \<le> fst (peak_prominence ?x p)"
      by (simp_all only: set_filter mem_Collect_eq)
    with sub have "p \<in> set (local_maxima_from ?x 1)" by (auto simp only: local_maxima_1d_def)
    then have "is_local_max ?x p" by (rule local_maxima_from_props) simp
    with pm show "is_local_max ?x p \<and> pmin \<le> fst (peak_prominence ?x p)" by simp
  qed
  show "prominences props = map (\<lambda>p. fst (peak_prominence ?x p)) peaks"
    using by_prominence_prominences[of ?x pmin ?pd] by (simp only: f s)
  show "left_bases props = map (\<lambda>p. fst (snd (peak_prominence ?x p))) peaks"
    using by_prominence_left_bases[of ?x pmin ?pd] by (simp only: f s)
qed

section \<open>Facts about \<^verbatim>\<open>np.argmin\<close>\<close>

lemma argmin_from_first:
  "argmin_from vs i best bi = r \<Longrightarrow>
     (r = bi \<and> (\<forall>v \<in> set vs. best \<le> v)) \<or>
     (i \<le> r \<and> r < i + length vs \<and> vs ! (r - i) < best \<and>
      (\<forall>k < length vs. vs ! (r - i) \<le> vs ! k) \<and> (\<forall>k < r - i. vs ! (r - i) < vs ! k))"
proof (induction vs arbitrary: i best bi)
  case Nil
  then show ?case by simp
next
  case (Cons v vs)
  show ?case
  proof (cases "v < best")
    case True
    with Cons.prems have "argmin_from vs (Suc i) v i = r" by simp
    from Cons.IH[OF this] show ?thesis
    proof
      assume a: "r = i \<and> (\<forall>w \<in> set vs. v \<le> w)"
      then have "\<forall>k < length (v # vs). (v # vs) ! 0 \<le> (v # vs) ! k"
        by (auto simp: nth_Cons' )
      with a True show ?thesis by auto
    next
      assume a: "Suc i \<le> r \<and> r < Suc i + length vs \<and> vs ! (r - Suc i) < v \<and>
         (\<forall>k < length vs. vs ! (r - Suc i) \<le> vs ! k) \<and> (\<forall>k < r - Suc i. vs ! (r - Suc i) < vs ! k)"
      then have "Suc i \<le> r" by (rule conjunct1)
      then have ri: "r - i = Suc (r - Suc i)" by arith
      have "\<forall>k < length (v # vs). vs ! (r - Suc i) \<le> (v # vs) ! k"
        using a by (auto simp: nth_Cons split: nat.splits)
      moreover have "\<forall>k < r - i. vs ! (r - Suc i) < (v # vs) ! k"
        using a ri by (auto simp: nth_Cons split: nat.splits)
      ultimately show ?thesis using a True ri by auto
    qed
  next
    case False
    with Cons.prems have "argmin_from vs (Suc i) best bi = r" by simp
    from Cons.IH[OF this] show ?thesis
    proof
      assume "r = bi \<and> (\<forall>w \<in> set vs. best \<le> w)"
      with False show ?thesis by auto
    next
      assume a: "Suc i \<le> r \<and> r < Suc i + length vs \<and> vs ! (r - Suc i) < best \<and>
         (\<forall>k < length vs. vs ! (r - Suc i) \<le> vs ! k) \<and> (\<forall>k < r - Suc i. vs ! (r - Suc i) < vs ! k)"
      then have "Suc i \<le> r" by (rule conjunct1)
      then have ri: "r - i = Suc (r - Suc i)" by arith
      have "\<forall>k < length (v # vs). vs ! (r - Suc i) \<le> (v # vs) ! k"
        using a False by (auto simp: nth_Cons split: nat.splits)
      moreover have "\<forall>k < r - i. vs ! (r - Suc i) < (v # vs) ! k"
        using a ri False by (auto simp: nth_Cons split: nat.splits)
      ultimately show ?thesis using a ri by auto
    qed
  qed
qed

lemma argmin_first:
  assumes "argmin vs = Inr a"
  shows "a < length vs \<and> (\<forall>k < length vs. vs ! a \<le> vs ! k) \<and> (\<forall>k < a. vs ! a < vs ! k)"
proof (cases vs)
  case Nil
  with assms show ?thesis by (simp add: argmin_def)
next
  case (Cons v rest)
  with assms have r: "argmin_from rest 1 v 0 = a" by (simp add: argmin_def)
  from argmin_from_first[OF r] show ?thesis
  proof
    assume "a = 0 \<and> (\<forall>w \<in> set rest. v \<le> w)"
    then show ?thesis using Cons by (auto simp: nth_Cons split: nat.splits)
  next
    assume b: "1 \<le> a \<and> a < 1 + length rest \<and> rest ! (a - 1) < v \<and>
       (\<forall>k < length rest. rest ! (a - 1) \<le> rest ! k) \<and> (\<forall>k < a - 1. rest ! (a - 1) < rest ! k)"
    then have va: "vs ! a = rest ! (a - 1)" using Cons by (simp add: nth_Cons')
    have "\<forall>k < length vs. rest ! (a - 1) \<le> vs ! k"
      using b Cons by (auto simp: nth_Cons split: nat.splits)
    moreover have "\<forall>k < a. rest ! (a - 1) < vs ! k"
    proof (intro allI impI)
      fix k assume "k < a"
      show "rest ! (a - 1) < vs ! k"
      proof (cases k)
        case 0
        with b Cons show ?thesis by simp
      next
        case (Suc k')
        with \<open>k < a\<close> have "k' < a - 1" by simp
        with b have "rest ! (a - 1) < rest ! k'" by simp
        with Suc Cons show ?thesis by simp
      qed
    qed
    ultimately show ?thesis using b va Cons by auto
  qed
qed

lemma argmin_nonempty: "vs \<noteq> [] \<Longrightarrow> \<exists>a. argmin vs = Inr a"
  by (cases vs) (auto simp: argmin_def)

section \<open>\<^verbatim>\<open>get_min_trap\<close>: the selected minimum\<close>

lemma getitem_nat: "getitem xs (int i) = Inr v \<Longrightarrow> i < length xs \<and> v = xs ! i"
  by (simp add: getitem_def split: if_splits)

lemma getitem_in_range: "i < length xs \<Longrightarrow> getitem xs (int i) = Inr (xs ! i)"
  by (simp add: getitem_def)

lemma found_Inr:
  assumes "found y t (peaks, props) k b = Inr r"
  shows "peaks ! k < length y \<and>
         r = [PInt (peaks ! k), PFloat (y ! (peaks ! k)), PFloat (elems t ! (peaks ! k)),
              PFloat (- (prominences props ! k)), PInt (left_bases props ! b)]"
proof (cases "getitem y (int (peaks ! k))")
  case (Inl e)
  with assms show ?thesis by (simp add: found_def)
next
  case (Inr pos)
  from getitem_nat[OF Inr] have "peaks ! k < length y" "pos = y ! (peaks ! k)" by simp_all
  with assms Inr show ?thesis by (simp add: found_def)
qed

lemma found_in_range:
  assumes "peaks ! k < length y"
  shows "found y t (peaks, props) k b =
         Inr [PInt (peaks ! k), PFloat (y ! (peaks ! k)), PFloat (elems t ! (peaks ! k)),
              PFloat (- (prominences props ! k)), PInt (left_bases props ! b)]"
  using getitem_in_range[OF assms] by (simp add: found_def)

lemma get_min_trap_unfold:
  assumes "ndim t = 1"
    and "find_peaks (neg t) None (Some 10) (Some (5 / 10000)) = Inr (peaks, props)"
  shows "get_min_trap y t =
     (if length peaks = 0 then Inr none_found
      else if length peaks = 1 \<and> 5 < peaks ! 0 then found y t (peaks, props) 0 0
      else if length peaks = 1 \<and> peaks ! 0 \<le> 5 then Inr none_found
      else (case argmin (map (\<lambda>p. elems t ! p) peaks) of
              Inl e \<Rightarrow> Inl e
            | Inr arg \<Rightarrow> found y t (peaks, props) arg 0))"
  unfolding get_min_trap_def using assms by simp

lemma get_min_trap_Inr_ndim:
  assumes "get_min_trap y t = Inr r"
  shows "ndim t = 1 \<and> (\<exists>lm. find_peaks (neg t) None (Some 10) (Some (5 / 10000)) = Inr lm)"
proof -
  have a: "\<not> 3 \<le> ndim t" using assms by (auto simp: get_min_trap_def)
  obtain lm where lm: "find_peaks (neg t) None (Some 10) (Some (5 / 10000)) = Inr lm"
    using assms a by (cases "find_peaks (neg t) None (Some 10) (Some (5 / 10000))")
       (simp_all add: get_min_trap_def)
  then have "ndim (neg t) = 1" by (simp add: find_peaks_def split: if_splits)
  then have "ndim t = 1" by (simp add: neg_def)
  with lm show ?thesis by blast
qed

lemma peak_in_range:
  assumes "ndim t = 1"
    and "find_peaks (neg t) None (Some 10) (Some pmin) = Inr (peaks, props)"
    and "k < length peaks"
  shows "peaks ! k < length (elems t)"
proof -
  from assms(3) have "peaks ! k \<in> set peaks" by simp
  with minima_props(1)[OF assms(1,2)] have "is_local_max (map uminus (elems t)) (peaks ! k)"
    by blast
  then have "peaks ! k < length (map uminus (elems t)) - 1" unfolding is_local_max_def by blast
  then show ?thesis by simp
qed

lemma get_min_trap_many:
  assumes "ndim t = 1"
    and "length (elems t) \<le> length y"
    and "find_peaks (neg t) None (Some 10) (Some (5 / 10000)) = Inr (peaks, props)"
    and "1 < length peaks"
  shows "\<exists>arg. argmin (map (\<lambda>p. elems t ! p) peaks) = Inr arg \<and> arg < length peaks \<and>
           get_min_trap y t =
             Inr [PInt (peaks ! arg), PFloat (y ! (peaks ! arg)), PFloat (elems t ! (peaks ! arg)),
                  PFloat (- (prominences props ! arg)), PInt (left_bases props ! 0)]"
proof -
  from assms(4) have "map (\<lambda>p. elems t ! p) peaks \<noteq> []" by auto
  then obtain arg where arg: "argmin (map (\<lambda>p. elems t ! p) peaks) = Inr arg"
    using argmin_nonempty by blast
  from argmin_first[OF arg] have lt: "arg < length peaks" by simp
  from peak_in_range[OF assms(1,3) lt] assms(2) have "peaks ! arg < length y" by simp
  from found_in_range[OF this]
  have "found y t (peaks, props) arg 0 =
          Inr [PInt (peaks ! arg), PFloat (y ! (peaks ! arg)), PFloat (elems t ! (peaks ! arg)),
               PFloat (- (prominences props ! arg)), PInt (left_bases props ! 0)]" .
  note fnd = this
  have "length peaks \<noteq> 0" "length peaks \<noteq> 1" using assms(4) by auto
  then have "get_min_trap y t = found y t (peaks, props) arg 0"
    unfolding get_min_trap_unfold[OF assms(1,3)] using arg by simp
  with fnd show ?thesis using arg lt by simp
qed

text \<open>
  Claim C9. When more than one local minimum is detected, the left-base index in the
  returned tuple is that of the first detected candidate (\<open>left_bases[0]\<close>), whichever
  candidate is selected.
\<close>

theorem left_base_is_first_candidates:
  assumes "ndim t = 1"
    and "length (elems t) \<le> length y"
    and "find_peaks (neg t) None (Some 10) (Some (5 / 10000)) = Inr (peaks, props)"
    and "1 < length peaks"
  shows "\<exists>idx pos depth height.
           get_min_trap y t = Inr [idx, pos, depth, height, PInt (left_bases props ! 0)]"
  using get_min_trap_many[OF assms] by blast

text \<open>
  Claim C7. When more than one local minimum is detected, the returned index, position
  and depth are those of a candidate whose curve value is the lowest among the
  candidates, and every earlier candidate has a strictly higher curve value (the first
  occurrence wins a tie).
\<close>

theorem lowest_candidate_first_on_ties:
  assumes "ndim t = 1"
    and "length (elems t) \<le> length y"
    and "find_peaks (neg t) None (Some 10) (Some (5 / 10000)) = Inr (peaks, props)"
    and "1 < length peaks"
  shows "\<exists>arg height base.
           arg < length peaks \<and>
           get_min_trap y t =
             Inr [PInt (peaks ! arg), PFloat (y ! (peaks ! arg)), PFloat (elems t ! (peaks ! arg)),
                  height, base] \<and>
           (\<forall>k < length peaks. elems t ! (peaks ! arg) \<le> elems t ! (peaks ! k)) \<and>
           (\<forall>k < arg. elems t ! (peaks ! arg) < elems t ! (peaks ! k))"
proof -
  from get_min_trap_many[OF assms] obtain arg where
    arg: "argmin (map (\<lambda>p. elems t ! p) peaks) = Inr arg" and lt: "arg < length peaks" and
    res: "get_min_trap y t =
             Inr [PInt (peaks ! arg), PFloat (y ! (peaks ! arg)), PFloat (elems t ! (peaks ! arg)),
                  PFloat (- (prominences props ! arg)), PInt (left_bases props ! 0)]"
    by blast
  let ?vs = "map (\<lambda>p. elems t ! p) peaks"
  from argmin_first[OF arg]
  have le: "\<forall>k < length ?vs. ?vs ! arg \<le> ?vs ! k" and first: "\<forall>k < arg. ?vs ! arg < ?vs ! k"
    by blast+
  have a: "\<forall>k < length peaks. elems t ! (peaks ! arg) \<le> elems t ! (peaks ! k)"
  proof (intro allI impI)
    fix k assume k: "k < length peaks"
    with le have "?vs ! arg \<le> ?vs ! k" by simp
    with k lt show "elems t ! (peaks ! arg) \<le> elems t ! (peaks ! k)" by simp
  qed
  have b: "\<forall>k < arg. elems t ! (peaks ! arg) < elems t ! (peaks ! k)"
  proof (intro allI impI)
    fix k assume k: "k < arg"
    with first have "?vs ! arg < ?vs ! k" by simp
    with k lt show "elems t ! (peaks ! arg) < elems t ! (peaks ! k)" by simp
  qed
  from lt res a b show ?thesis by blast
qed

lemma two_minima_peaks:
  "find_peaks (neg (array1 two_minima)) None (Some 10) (Some (5 / 10000)) =
     Inr ([8, 20], \<lparr>peak_heights = [], prominences = [7 / 2, 7], left_bases = [1, 14],
                    right_bases = [14, 29]\<rparr>)"
  by code_simp

lemma two_minima_result:
  "get_min_trap two_minima_axis (array1 two_minima) =
     Inr [PInt 20, PFloat 20, PFloat (- 1), PFloat (- 7), PInt 1]"
  by code_simp

lemma get_min_trap_accepted:
  assumes "get_min_trap y t = Inr r" and "r \<noteq> none_found"
  shows "\<exists>peaks props k.
           ndim t = 1 \<and>
           find_peaks (neg t) None (Some 10) (Some (5 / 10000)) = Inr (peaks, props) \<and>
           k < length peaks \<and> peaks ! k < length y \<and>
           r = [PInt (peaks ! k), PFloat (y ! (peaks ! k)), PFloat (elems t ! (peaks ! k)),
                PFloat (- (prominences props ! k)), PInt (left_bases props ! 0)]"
proof -
  from get_min_trap_Inr_ndim[OF assms(1)] obtain lm where
    nd: "ndim t = 1" and "find_peaks (neg t) None (Some 10) (Some (5 / 10000)) = Inr lm"
    by blast
  then obtain peaks props where
    fp: "find_peaks (neg t) None (Some 10) (Some (5 / 10000)) = Inr (peaks, props)"
    by (cases lm) simp
  note unf = get_min_trap_unfold[OF nd fp, of y]
  consider (zero) "length peaks = 0"
    | (one_far) "length peaks = 1" "5 < peaks ! 0"
    | (one_near) "length peaks = 1" "peaks ! 0 \<le> 5"
    | (many) "1 < length peaks"
    by linarith
  then show ?thesis
  proof cases
    case zero
    with unf assms show ?thesis by simp
  next
    case one_near
    with unf assms show ?thesis by simp
  next
    case one_far
    with unf assms(1) have "found y t (peaks, props) 0 0 = Inr r" by simp
    from found_Inr[OF this] one_far nd fp show ?thesis by (intro exI[of _ peaks] exI[of _ props] exI[of _ 0]) simp
  next
    case many
    then have ne: "length peaks \<noteq> 0" "length peaks \<noteq> 1" by auto
    from many have "peaks \<noteq> []" by auto
    then have "map (\<lambda>p. elems t ! p) peaks \<noteq> []" by simp
    from argmin_nonempty[OF this]
    obtain arg where arg: "argmin (map (\<lambda>p. elems t ! p) peaks) = Inr arg" by blast
    from argmin_first[OF arg] have lt: "arg < length peaks" by simp
    from unf assms(1) ne arg have "found y t (peaks, props) arg 0 = Inr r" by simp
    from found_Inr[OF this] lt nd fp show ?thesis
      by (intro exI[of _ peaks] exI[of _ props] exI[of _ arg]) simp
  qed
qed

text \<open>
  Claim C2, as amended. Whenever \<^verbatim>\<open>get_min_trap\<close> accepts a minimum (the returned index
  is an integer), the barrier height it returns is the negated prominence of the
  selected minimum: its magnitude is the prominence, which is at least \<open>5e-4\<close>, and its
  sign is negative.
\<close>

theorem barrier_height_is_negated_prominence:
  assumes "get_min_trap y t = Inr [PInt idx, pos, depth, height, base]"
  shows "height = PFloat (- fst (peak_prominence (map uminus (elems t)) idx)) \<and>
         5 / 10000 \<le> fst (peak_prominence (map uminus (elems t)) idx)"
proof -
  have "[PInt idx, pos, depth, height, base] \<noteq> none_found" by (simp add: none_found_def)
  from get_min_trap_accepted[OF assms this] obtain peaks props k where
    nd: "ndim t = 1" and
    fp: "find_peaks (neg t) None (Some 10) (Some (5 / 10000)) = Inr (peaks, props)" and
    k: "k < length peaks" and
    r: "[PInt idx, pos, depth, height, base] =
          [PInt (peaks ! k), PFloat (y ! (peaks ! k)), PFloat (elems t ! (peaks ! k)),
           PFloat (- (prominences props ! k)), PInt (left_bases props ! 0)]"
    by blast
  from r have idx: "idx = peaks ! k" and h: "height = PFloat (- (prominences props ! k))" by simp_all
  from minima_props(2)[OF nd fp] k
  have "prominences props ! k = fst (peak_prominence (map uminus (elems t)) (peaks ! k))" by simp
  moreover from minima_props(1)[OF nd fp] k
  have "5 / 10000 \<le> fst (peak_prominence (map uminus (elems t)) (peaks ! k))" by simp
  ultimately show ?thesis using idx h by simp
qed

theorem barrier_height_is_negated_prominence_witness:
  "get_min_trap one_minimum_axis (array1 one_minimum) =
     Inr [PInt 6, PFloat 6, PFloat 0, PFloat (- 2), PInt 0] \<and>
   PFloat (- 2) = PFloat (- fst (peak_prominence (map uminus (elems (array1 one_minimum))) 6)) \<and>
   5 / 10000 \<le> fst (peak_prominence (map uminus (elems (array1 one_minimum))) 6)"
proof -
  have h: "get_min_trap one_minimum_axis (array1 one_minimum) =
     Inr [PInt 6, PFloat 6, PFloat 0, PFloat (- 2), PInt 0]"
    by code_simp
  from barrier_height_is_negated_prominence[OF h] h show ?thesis by simp
qed

theorem barrier_height_nonnegative_counterexample:
  "get_min_trap one_minimum_axis (array1 one_minimum) =
     Inr [PInt 6, PFloat 6, PFloat 0, PFloat (- 2), PInt 0] \<and>
   fst (peak_prominence (map uminus one_minimum) 6) = 2 \<and>
   \<not> (0 \<le> (- 2 :: real))"
  by code_simp

theorem left_base_is_first_candidates_witness:
  "ndim (array1 two_minima) = 1 \<and>
   length (elems (array1 two_minima)) \<le> length two_minima_axis \<and>
   find_peaks (neg (array1 two_minima)) None (Some 10) (Some (5 / 10000)) =
     Inr ([8, 20], \<lparr>peak_heights = [], prominences = [7 / 2, 7], left_bases = [1, 14],
                    right_bases = [14, 29]\<rparr>) \<and>
   1 < length [8, 20 :: nat] \<and>
   (\<exists>idx pos depth height.
      get_min_trap two_minima_axis (array1 two_minima) = Inr [idx, pos, depth, height, PInt 1])"
proof -
  have h1: "ndim (array1 two_minima) = 1" by (simp add: array1_def)
  have h2: "length (elems (array1 two_minima)) \<le> length two_minima_axis"
    by (simp add: array1_def two_minima_def two_minima_axis_def)
  have h4: "1 < length [8, 20 :: nat]" by simp
  from left_base_is_first_candidates[OF h1 h2 two_minima_peaks h4] h1 h2 two_minima_peaks
  show ?thesis by simp
qed

theorem lowest_candidate_first_on_ties_witness:
  "ndim (array1 two_minima) = 1 \<and>
   length (elems (array1 two_minima)) \<le> length two_minima_axis \<and>
   1 < length [8, 20 :: nat] \<and>
   (\<exists>arg height base.
      arg < length [8, 20 :: nat] \<and>
      get_min_trap two_minima_axis (array1 two_minima) =
        Inr [PInt ([8, 20] ! arg), PFloat (two_minima_axis ! ([8, 20] ! arg)),
             PFloat (elems (array1 two_minima) ! ([8, 20] ! arg)), height, base] \<and>
      (\<forall>k < length [8, 20 :: nat].
          elems (array1 two_minima) ! ([8, 20] ! arg) \<le> elems (array1 two_minima) ! ([8, 20] ! k)) \<and>
      (\<forall>k < arg.
          elems (array1 two_minima) ! ([8, 20] ! arg) < elems (array1 two_minima) ! ([8, 20] ! k)))"
proof -
  have h1: "ndim (array1 two_minima) = 1" by (simp add: array1_def)
  have h2: "length (elems (array1 two_minima)) \<le> length two_minima_axis"
    by (simp add: array1_def two_minima_def two_minima_axis_def)
  have h4: "1 < length [8, 20 :: nat]" by simp
  from lowest_candidate_first_on_ties[OF h1 h2 two_minima_peaks h4] h1 h2 h4
  show ?thesis by blast
qed

section \<open>\<^verbatim>\<open>get_coord_trap_outside_structure\<close>: errors and the two-peak range\<close>

lemma find_proximity_peaks:
  "find_peaks (neg (array1 cp)) (Some 10) None None =
     Inr (by_height (map uminus cp) (Some 10) (local_maxima_1d (map uminus cp), no_properties))"
  by (simp add: find_peaks_def neg_def array1_def by_distance_def by_prominence_def)

lemma proximity_peak_bounds:
  assumes "find_peaks (neg (array1 cp)) (Some 10) None None = Inr (peaks, props)"
    and "k < length peaks"
  shows "1 \<le> peaks ! k \<and> peaks ! k < length cp - 1"
proof -
  let ?x = "map uminus cp"
  from assms(1) have "peaks = fst (by_height ?x (Some 10) (local_maxima_1d ?x, no_properties))"
    by (simp add: find_proximity_peaks)
  with by_height_peaks[of ?x "Some 10" "(local_maxima_1d ?x, no_properties)"]
  have "set peaks \<subseteq> set (local_maxima_from ?x 1)" by (simp add: local_maxima_1d_def)
  moreover from assms(2) have "peaks ! k \<in> set peaks" by simp
  ultimately have "peaks ! k \<in> set (local_maxima_from ?x 1)" by blast
  then have "is_local_max ?x (peaks ! k)" by (rule local_maxima_from_props) simp
  then have "1 \<le> peaks ! k" "peaks ! k < length ?x - 1" unfolding is_local_max_def by blast+
  then show ?thesis by simp
qed

lemma getitem_before_peak:
  assumes "1 \<le> p" and "p < length cp - 1" and "length cp \<le> length xs"
  shows "getitem xs (int p - 1) = Inr (xs ! (p - 1))"
proof -
  from assms have "0 \<le> int p - 1" "int p - 1 < int (length xs)" by simp_all
  moreover from assms(1) have "nat (int p - 1) = p - 1" by simp
  ultimately show ?thesis by (simp add: getitem_def)
qed

lemma get_coord_cases:
  assumes ne: "coord inp \<noteq> []"
    and len: "length (CP inp) \<le> length (coord inp)"
    and fp: "find_peaks (neg (array1 (CP inp))) (Some 10) None None = Inr (peaks, props)"
  shows "get_coord_trap_outside_structure inp edge_no_surface =
     (if missing_edge inp edge_no_surface then Inl (ValueError no_surface_msg)
      else if too_many_peaks inp peaks then Inl (ValueError too_many_msg)
      else get_coord_trap_outside_structure inp edge_no_surface) \<and>
     (\<not> missing_edge inp edge_no_surface \<and> \<not> too_many_peaks inp peaks \<longrightarrow>
        (\<exists>r. get_coord_trap_outside_structure inp edge_no_surface = Inr r))"
proof -
  consider (other) "axis inp \<noteq> trapping_axis inp"
    | (nosurf_none) "axis inp = trapping_axis inp" "surface_type inp = ''NoSurface''" "edge_no_surface = None"
    | (nosurf_some) e where "axis inp = trapping_axis inp" "surface_type inp = ''NoSurface''" "edge_no_surface = Some e"
    | (p0) "axis inp = trapping_axis inp" "surface_type inp \<noteq> ''NoSurface''" "length peaks = 0"
    | (p1) "axis inp = trapping_axis inp" "surface_type inp \<noteq> ''NoSurface''" "length peaks = 1"
    | (p2) "axis inp = trapping_axis inp" "surface_type inp \<noteq> ''NoSurface''" "length peaks = 2"
    | (pn) "axis inp = trapping_axis inp" "surface_type inp \<noteq> ''NoSurface''" "2 < length peaks"
  proof -
    have l: "length peaks = 0 \<or> length peaks = 1 \<or> length peaks = 2 \<or> 2 < length peaks"
      by linarith
    have e: "edge_no_surface = None \<or> (\<exists>e. edge_no_surface = Some e)"
      by (cases edge_no_surface) simp_all
    from l e that show ?thesis by blast
  qed
  then show ?thesis
  proof cases
    case other
    then show ?thesis
      by (simp add: get_coord_trap_outside_structure_def missing_edge_def too_many_peaks_def)
  next
    case nosurf_none
    then show ?thesis
      by (simp add: get_coord_trap_outside_structure_def missing_edge_def too_many_peaks_def)
  next
    case nosurf_some
    from ne have "map (\<lambda>c. \<bar>c - e\<bar>) (coord inp) \<noteq> []" by simp
    from argmin_nonempty[OF this] obtain a where "argmin (map (\<lambda>c. \<bar>c - e\<bar>) (coord inp)) = Inr a"
      by blast
    with nosurf_some show ?thesis
      by (simp add: get_coord_trap_outside_structure_def missing_edge_def too_many_peaks_def)
  next
    case p0
    with fp show ?thesis
      by (simp add: get_coord_trap_outside_structure_def missing_edge_def too_many_peaks_def)
  next
    case p1
    from proximity_peak_bounds[OF fp, of 0] p1
    have "1 \<le> peaks ! 0" "peaks ! 0 < length (CP inp) - 1" by simp_all
    from getitem_before_peak[OF this len]
    have "getitem (coord inp) (int (peaks ! 0) - 1) = Inr (coord inp ! (peaks ! 0 - 1))" .
    with p1 fp show ?thesis
      by (simp add: get_coord_trap_outside_structure_def missing_edge_def too_many_peaks_def Let_def)
  next
    case p2
    from proximity_peak_bounds[OF fp, of 0] p2
    have "1 \<le> peaks ! 0" "peaks ! 0 < length (CP inp) - 1" by simp_all
    from getitem_before_peak[OF this len]
    have "getitem (coord inp) (int (peaks ! 0) - 1) = Inr (coord inp ! (peaks ! 0 - 1))" .
    with p2 fp show ?thesis
      by (simp add: get_coord_trap_outside_structure_def missing_edge_def too_many_peaks_def Let_def)
  next
    case pn
    then have "length peaks \<noteq> 0" "length peaks \<noteq> 1" "length peaks \<noteq> 2" by auto
    with pn(1,2) fp show ?thesis
      by (simp add: get_coord_trap_outside_structure_def missing_edge_def too_many_peaks_def pn(3))
  qed
qed

lemma slice_upt: "hi \<le> length xs \<Longrightarrow> slice xs lo hi = map (\<lambda>i. xs ! i) [lo..<hi]"
  by (rule nth_equalityI) (simp_all add: slice_def)

text \<open>
  Claim C3. On an index-aligned, non-empty axis, \<^verbatim>\<open>get_coord_trap_outside_structure\<close>
  raises exactly in two cases: on the trapping axis with no surface and no edge given,
  and on the trapping axis with a surface when more than two proximity peaks are
  detected. Each case has its own \<^verbatim>\<open>ValueError\<close>; in every other case the call returns.
\<close>

theorem configuration_error_cases:
  assumes "coord inp \<noteq> []"
    and "length (CP inp) \<le> length (coord inp)"
    and "find_peaks (neg (array1 (CP inp))) (Some 10) None None = Inr (peaks, props)"
  shows "isl (get_coord_trap_outside_structure inp edge_no_surface) =
           (missing_edge inp edge_no_surface \<or> too_many_peaks inp peaks) \<and>
         (get_coord_trap_outside_structure inp edge_no_surface = Inl (ValueError no_surface_msg)) =
           missing_edge inp edge_no_surface \<and>
         (get_coord_trap_outside_structure inp edge_no_surface = Inl (ValueError too_many_msg)) =
           too_many_peaks inp peaks"
proof -
  note c = get_coord_cases[OF assms, of edge_no_surface]
  have msgs: "no_surface_msg \<noteq> too_many_msg" by (simp add: no_surface_msg_def too_many_msg_def)
  have excl: "\<not> (missing_edge inp edge_no_surface \<and> too_many_peaks inp peaks)"
    by (auto simp: missing_edge_def too_many_peaks_def)
  show ?thesis
  proof (cases "missing_edge inp edge_no_surface")
    case True
    with c have "get_coord_trap_outside_structure inp edge_no_surface = Inl (ValueError no_surface_msg)"
      by simp
    with True excl msgs show ?thesis by simp
  next
    case m: False
    show ?thesis
    proof (cases "too_many_peaks inp peaks")
      case True
      with c m have "get_coord_trap_outside_structure inp edge_no_surface = Inl (ValueError too_many_msg)"
        by simp
      with True m msgs show ?thesis by simp
    next
      case False
      with c m obtain r where "get_coord_trap_outside_structure inp edge_no_surface = Inr r" by blast
      with False m show ?thesis by simp
    qed
  qed
qed

lemma three_walls_peaks:
  "find_peaks (neg (array1 (CP three_walls))) (Some 10) None None =
     Inr ([1, 3, 5], \<lparr>peak_heights = [20, 20, 20], prominences = [], left_bases = [],
                       right_bases = []\<rparr>)"
  by code_simp

lemma two_walls_peaks:
  "find_peaks (neg (array1 (CP two_walls))) (Some 10) None None =
     Inr ([1, 4], \<lparr>peak_heights = [20, 20], prominences = [], left_bases = [],
                    right_bases = []\<rparr>)"
  by code_simp

theorem configuration_error_cases_witness:
  "coord three_walls \<noteq> [] \<and>
   length (CP three_walls) \<le> length (coord three_walls) \<and>
   too_many_peaks three_walls [1, 3, 5] \<and>
   \<not> missing_edge three_walls None \<and>
   get_coord_trap_outside_structure three_walls None = Inl (ValueError too_many_msg)"
proof -
  have h1: "coord three_walls \<noteq> []" by (simp add: three_walls_def)
  have h2: "length (CP three_walls) \<le> length (coord three_walls)" by (simp add: three_walls_def)
  have t: "too_many_peaks three_walls [1, 3, 5]" by (simp add: too_many_peaks_def three_walls_def)
  have m: "\<not> missing_edge three_walls None" by (simp add: missing_edge_def three_walls_def)
  from configuration_error_cases[OF h1 h2 three_walls_peaks, of None] h1 h2 t m
  show ?thesis by simp
qed

text \<open>
  Claim C6, as amended. With exactly two proximity peaks \<open>p0\<close> and \<open>p1\<close>, the edge is the
  axis value one sample before \<open>p0\<close>, and the outside axis and curve are the samples of
  the half-open index range from \<open>p0\<close> up to and excluding \<open>p1\<close>, the axis re-anchored by
  subtracting the edge.
\<close>

theorem two_peaks_half_open_interval:
  assumes "axis inp = trapping_axis inp"
    and "surface_type inp \<noteq> ''NoSurface''"
    and "length (CP inp) \<le> length (coord inp)"
    and "length (trap inp) = length (coord inp)"
    and "find_peaks (neg (array1 (CP inp))) (Some 10) None None = Inr ([p0, p1], props)"
  shows "get_coord_trap_outside_structure inp edge_no_surface =
           Inr (mf_index inp, coord inp ! (p0 - 1),
                map (\<lambda>i. coord inp ! i - coord inp ! (p0 - 1)) [p0..<p1],
                map (\<lambda>i. trap inp ! i) [p0..<p1])"
proof -
  from proximity_peak_bounds[OF assms(5), of 0]
  have b0: "1 \<le> p0" "p0 < length (CP inp) - 1" by simp_all
  from proximity_peak_bounds[OF assms(5), of 1]
  have b1: "p1 < length (CP inp) - 1" by simp
  from getitem_before_peak[OF b0 assms(3)]
  have g: "getitem (coord inp) (int p0 - 1) = Inr (coord inp ! (p0 - 1))" .
  from b1 assms(3,4) have le: "p1 \<le> length (coord inp)" "p1 \<le> length (trap inp)" by simp_all
  have "get_coord_trap_outside_structure inp edge_no_surface =
          Inr (mf_index inp, coord inp ! (p0 - 1),
               map (\<lambda>c. c - coord inp ! (p0 - 1)) (slice (coord inp) p0 p1),
               slice (trap inp) p0 p1)"
    using assms(1,2,5) g by (simp add: get_coord_trap_outside_structure_def Let_def)
  then show ?thesis by (simp add: slice_upt[OF le(1)] slice_upt[OF le(2)] comp_def)
qed

theorem two_peaks_half_open_interval_witness:
  "axis two_walls = trapping_axis two_walls \<and>
   surface_type two_walls \<noteq> ''NoSurface'' \<and>
   length (CP two_walls) \<le> length (coord two_walls) \<and>
   length (trap two_walls) = length (coord two_walls) \<and>
   get_coord_trap_outside_structure two_walls None = Inr (0, 0, [1, 2, 3], [11, 12, 13])"
proof -
  have h1: "axis two_walls = trapping_axis two_walls" by (simp add: two_walls_def)
  have h2: "surface_type two_walls \<noteq> ''NoSurface''" by (simp add: two_walls_def)
  have h3: "length (CP two_walls) \<le> length (coord two_walls)" by (simp add: two_walls_def)
  have h4: "length (trap two_walls) = length (coord two_walls)" by (simp add: two_walls_def)
  have u: "[Suc 0..<4] = [Suc 0, 2, 3]" by code_simp
  from two_peaks_half_open_interval[OF h1 h2 h3 h4 two_walls_peaks, of None] h1 h2 h3 h4
  show ?thesis by (simp add: two_walls_def u)
qed

theorem closed_interval_counterexample:
  "find_peaks (neg (array1 (CP two_walls))) (Some 10) None None =
     Inr ([1, 4], \<lparr>peak_heights = [20, 20], prominences = [], left_bases = [],
                    right_bases = []\<rparr>) \<and>
   get_coord_trap_outside_structure two_walls None = Inr (0, 0, [1, 2, 3], [11, 12, 13]) \<and>
   map (\<lambda>i. coord two_walls ! i - 0) [1, 2, 3, 4] = [1, 2, 3, 4]"
  by code_simp

section \<open>\<^verbatim>\<open>get_trapfreq\<close>: the unpacking of the minimum\<close>

lemma get_min_trap_returns:
  assumes "ndim t = 1" and "length (elems t) \<le> length y"
  shows "\<exists>r. get_min_trap y t = Inr r"
proof -
  obtain peaks props where
    fp: "find_peaks (neg t) None (Some 10) (Some (5 / 10000)) = Inr (peaks, props)"
    using find_minima[OF assms(1), of "5 / 10000"] by (metis surj_pair)
  note unf = get_min_trap_unfold[OF assms(1) fp, of y]
  consider (zero) "length peaks = 0"
    | (one_far) "length peaks = 1" "5 < peaks ! 0"
    | (one_near) "length peaks = 1" "peaks ! 0 \<le> 5"
    | (many) "1 < length peaks"
    by linarith
  then show ?thesis
  proof cases
    case zero
    with unf show ?thesis by simp
  next
    case one_near
    with unf show ?thesis by simp
  next
    case one_far
    from peak_in_range[OF assms(1) fp, of 0] one_far assms(2) have "peaks ! 0 < length y" by simp
    from found_in_range[OF this, of t props 0] unf one_far show ?thesis by simp
  next
    case many
    from get_min_trap_many[OF assms fp many] show ?thesis by blast
  qed
qed

lemma get_min_trap_length:
  assumes "get_min_trap y t = Inr r"
  shows "length r = 5"
proof (cases "r = none_found")
  case True
  then show ?thesis by (simp add: none_found_def)
next
  case False
  from get_min_trap_accepted[OF assms False] show ?thesis by auto
qed

lemma unpack4_of_five:
  "length r = 5 \<Longrightarrow> unpack4 r = Inl (ValueError ''too many values to unpack (expected 4)'')"
  by (auto simp: unpack4_def split: list.splits)

lemma unpack5_of_five:
  "length r = 5 \<Longrightarrow> unpack5 r = Inr (r ! 0, r ! 1, r ! 2, r ! 3, r ! 4)"
  by (auto simp: unpack5_def split: list.splits)

lemma locate_trap_pos_raises:
  "locate_trap_pos y t =
     (case get_min_trap y t of
        Inl e \<Rightarrow> Inl e
      | Inr r \<Rightarrow> Inl (ValueError ''too many values to unpack (expected 4)''))"
proof (cases "get_min_trap y t")
  case (Inl e)
  then show ?thesis by (simp add: locate_trap_pos_def)
next
  case (Inr r)
  from unpack4_of_five[OF get_min_trap_length[OF Inr]] Inr show ?thesis
    by (simp add: locate_trap_pos_def)
qed

lemma get_min_trap_not_1d:
  assumes "ndim t \<noteq> 1" and "\<not> 3 \<le> ndim t"
  shows "get_min_trap y t = Inl (ValueError ''`x` must be a 1-D array'')"
  using assms by (simp add: get_min_trap_def find_peaks_def neg_def)

text \<open>
  Claim C8, as amended. No call of \<^verbatim>\<open>get_trapfreq\<close> returns a frequency. An input of three
  or more dimensions raises \<^verbatim>\<open>TypeError\<close> at the guard. An input of fewer dimensions
  that is not one-dimensional raises the \<^verbatim>\<open>ValueError\<close> of \<^verbatim>\<open>find_peaks\<close>. A
  one-dimensional curve with an axis at least as long makes \<^verbatim>\<open>get_min_trap\<close> return its
  five values, and unpacking them into four names raises \<^verbatim>\<open>ValueError\<close>.
\<close>

theorem get_trapfreq_always_raises:
  "get_trapfreq sim y t =
     (if 3 \<le> ndim t then Inl (TypeError ''The trap given must be one-dimensional'')
      else if ndim t \<noteq> 1 then Inl (ValueError ''`x` must be a 1-D array'')
      else if length (elems t) \<le> length y
      then Inl (ValueError ''too many values to unpack (expected 4)'')
      else get_trapfreq sim y t) \<and>
   isl (get_trapfreq sim y t)"
proof -
  have raises: "isl (get_trapfreq sim y t)"
    by (cases "get_min_trap y t")
       (simp_all add: get_trapfreq_def locate_trap_pos_raises)
  show ?thesis
  proof (cases "3 \<le> ndim t")
    case True
    with raises show ?thesis by (simp add: get_trapfreq_def)
  next
    case lt3: False
    show ?thesis
    proof (cases "ndim t = 1")
      case False
      from get_min_trap_not_1d[OF False lt3, of y] lt3 False raises show ?thesis
        by (simp add: get_trapfreq_def locate_trap_pos_raises)
    next
      case one: True
      show ?thesis
      proof (cases "length (elems t) \<le> length y")
        case True
        from get_min_trap_returns[OF one True] obtain r where "get_min_trap y t = Inr r" by blast
        with lt3 one True raises show ?thesis
          by (simp add: get_trapfreq_def locate_trap_pos_raises)
      next
        case False
        with lt3 one raises show ?thesis by simp
      qed
    qed
  qed
qed

theorem get_trapfreq_type_error_counterexample:
  "get_trapfreq demo_sim [] \<lparr>ndim = 3, elems = []\<rparr> =
     Inl (TypeError ''The trap given must be one-dimensional'')"
  by (simp add: get_trapfreq_def)

text \<open>
  Claim C4 at a flat curve: \<^verbatim>\<open>get_min_trap\<close> reports no minimum, and \<^verbatim>\<open>get_trapfreq\<close>
  raises at the first unpacking, before the tiling retry and before \<^verbatim>\<open>return 0\<close>.
\<close>

theorem get_trapfreq_no_minimum_raises:
  "get_min_trap flat_axis (array1 flat_curve) = Inr [PNaN, PNaN, PInt 0, PInt 0, PNaN] \<and>
   get_trapfreq sim flat_axis (array1 flat_curve) =
     Inl (ValueError ''too many values to unpack (expected 4)'')"
proof -
  have g: "get_min_trap flat_axis (array1 flat_curve) = Inr [PNaN, PNaN, PInt 0, PInt 0, PNaN]"
    by code_simp
  have "\<not> 3 \<le> ndim (array1 flat_curve)" by (simp add: array1_def)
  with g show ?thesis by (simp add: get_trapfreq_def locate_trap_pos_raises)
qed

section \<open>\<^verbatim>\<open>optimize\<close> and \<^verbatim>\<open>optimize_gui\<close> agree\<close>

lemma optimize_gui_cell_eq: "optimize_gui_cell = optimize_cell"
  unfolding optimize_gui_cell_def optimize_cell_def by (rule refl)

lemma foldE_with_log:
  assumes "\<And>x st lg. map_sum id fst (F x (st, lg)) = G x st"
  shows "map_sum id fst (foldE F xs (st, lg)) = foldE G xs st"
proof (induction xs arbitrary: st lg)
  case Nil
  show ?case by simp
next
  case (Cons x xs)
  show ?case
  proof (cases "F x (st, lg)")
    case (Inl e)
    with assms[of x st lg] have "G x st = Inl e" by simp
    with Inl show ?thesis by simp
  next
    case (Inr p)
    obtain st' lg' where p: "p = (st', lg')" by (cases p)
    with Inr assms[of x st lg] have "G x st = Inr st'" by simp
    with Inr p Cons.IH[of st' lg'] show ?thesis by simp
  qed
qed

lemma optimize_unfold:
  assumes "arange Pmin1 Pmax1 Pstep1 = Inr r1"
    and "arange Pmin2 Pmax2 Pstep2 = Inr r2"
    and "find_nearest (simul_axis sim) ymin = Inr yidx"
  shows "optimize sim s0 ymin Pmin1 Pmax1 Pstep1 Pmin2 Pmax2 Pstep2 =
     (case foldE (\<lambda>(i, P1) st.
                    foldE (\<lambda>(j, P2) st'. optimize_cell sim yidx (drop yidx (simul_axis sim)) i P1 j P2 st')
                          (enumerate 0 r2) st)
                 (enumerate 0 (rev r1)) (s0, zero_grids (length r1) (length r2)) of
        Inl e \<Rightarrow> Inl e
      | Inr (s, g) \<Rightarrow> Inr (sanitize g))"
  unfolding optimize_def sanitize_def zero_grids_def progressbar_enumerate_def Let_def using assms
  by simp

lemma optimize_gui_unfold:
  assumes "arange Pmin1 Pmax1 Pstep1 = Inr r1"
    and "arange Pmin2 Pmax2 Pstep2 = Inr r2"
    and "find_nearest (simul_axis sim) ymin = Inr yidx"
  shows "optimize_gui sim s0 ymin Pmin1 Pmax1 Pstep1 Pmin2 Pmax2 Pstep2 =
     (case foldE (\<lambda>(i, P1) (st, sigs).
                    case foldE (\<lambda>(j, P2) st'. optimize_gui_cell sim yidx (drop yidx (simul_axis sim)) i P1 j P2 st')
                               (enumerate 0 r2) st of
                      Inl e \<Rightarrow> Inl e
                    | Inr st1 \<Rightarrow> Inr (st1, sigs @ [Progress] @ (if i = 10 then [Benchmark] else [])))
                 (enumerate 0 (rev r1)) ((s0, zero_grids (length r1) (length r2)), []) of
        Inl e \<Rightarrow> Inl e
      | Inr ((s, g), sigs) \<Rightarrow>
          Inr \<lparr>returned = sanitize g, optim_res = sanitize g, emitted = sigs @ [Finished]\<rparr>)"
  unfolding optimize_gui_def sanitize_def zero_grids_def Let_def using assms
  by simp

text \<open>
  Claim C10. For the same simulation, provider state and arguments, \<^verbatim>\<open>optimize_gui\<close>
  returns the grids that \<^verbatim>\<open>optimize\<close> returns, and raises what it raises; it differs
  in the signals it emits and in storing the result in \<^verbatim>\<open>optim_res\<close>.
\<close>

theorem optimize_gui_returns_same_grids:
  "map_sum id returned (optimize_gui sim s0 ymin Pmin1 Pmax1 Pstep1 Pmin2 Pmax2 Pstep2) =
     optimize sim s0 ymin Pmin1 Pmax1 Pstep1 Pmin2 Pmax2 Pstep2"
proof (cases "arange Pmin1 Pmax1 Pstep1")
  case (Inl e)
  then show ?thesis by (simp add: optimize_def optimize_gui_def)
next
  case r1: (Inr r1)
  show ?thesis
  proof (cases "arange Pmin2 Pmax2 Pstep2")
    case (Inl e)
    with r1 show ?thesis by (simp add: optimize_def optimize_gui_def)
  next
    case r2: (Inr r2)
    show ?thesis
    proof (cases "find_nearest (simul_axis sim) ymin")
      case (Inl e)
      with r1 r2 show ?thesis by (simp add: optimize_def optimize_gui_def Let_def)
    next
      case yidx: (Inr yidx)
      let ?G = "\<lambda>(i, P1) st.
                  foldE (\<lambda>(j, P2) st'. optimize_cell sim yidx (drop yidx (simul_axis sim)) i P1 j P2 st')
                        (enumerate 0 r2) st"
      let ?F = "\<lambda>(i, P1) (st, sigs).
                  case foldE (\<lambda>(j, P2) st'. optimize_gui_cell sim yidx (drop yidx (simul_axis sim)) i P1 j P2 st')
                             (enumerate 0 r2) st of
                    Inl e \<Rightarrow> Inl e
                  | Inr st1 \<Rightarrow> Inr (st1, sigs @ [Progress] @ (if i = 10 then [Benchmark] else []))"
      let ?st0 = "(s0, zero_grids (length r1) (length r2))"
      have step: "\<And>x st lg. map_sum id fst (?F x (st, lg)) = ?G x st"
      proof -
        fix x :: "nat \<times> real" and st :: "'a \<times> grids" and lg :: "signal list"
        obtain i P1 where x: "x = (i, P1)" by (cases x)
        show "map_sum id fst (?F x (st, lg)) = ?G x st"
          unfolding x by (simp add: optimize_gui_cell_eq split: sum.splits)
      qed
      have rel: "map_sum id fst (foldE ?F (enumerate 0 (rev r1)) (?st0, [])) =
                 foldE ?G (enumerate 0 (rev r1)) ?st0"
        by (rule foldE_with_log[where F = ?F and G = ?G, OF step])
      show ?thesis
      proof (cases "foldE ?F (enumerate 0 (rev r1)) (?st0, [])")
        case (Inl e)
        with rel have "foldE ?G (enumerate 0 (rev r1)) ?st0 = Inl e" by simp
        with Inl show ?thesis
          unfolding optimize_unfold[OF r1 r2 yidx] optimize_gui_unfold[OF r1 r2 yidx] by simp
      next
        case (Inr q)
        obtain s g sigs where q: "q = ((s, g), sigs)" by (cases q) auto
        with Inr rel have "foldE ?G (enumerate 0 (rev r1)) ?st0 = Inr (s, g)" by simp
        with Inr q show ?thesis
          unfolding optimize_unfold[OF r1 r2 yidx] optimize_gui_unfold[OF r1 r2 yidx] by simp
      qed
    qed
  qed
qed

section \<open>\<^verbatim>\<open>optimize\<close>: an exception in a cell ends the sweep\<close>














section \<open>The detected minima are ordered, and the left base lies before its peak\<close>







section \<open>\<^verbatim>\<open>optimize\<close>: every cell returns on a well-formed simulation\<close>









section \<open>\<^verbatim>\<open>optimize\<close>: shape of the grids and absence of NaN\<close>


















end
